theory Spec2Isabelle
  imports Main
begin

section \<open>Python exceptions as values\<close>

text \<open>
  The exceptions the tracker of \<^verbatim>\<open>video.py\<close> can raise by itself. A function that may
  raise returns \<open>error + 'a\<close>, with \<open>Inl\<close> the exception. The external pipeline is a
  parameter whose calls are total functions.
\<close>

datatype error = KeyError | IndexError | ValueError | TypeError

text \<open>A \<^verbatim>\<open>for x in xs:\<close> loop whose body may raise: the first exception ends the loop.\<close>

fun foldE :: "('a \<Rightarrow> 's \<Rightarrow> error + 's) \<Rightarrow> 'a list \<Rightarrow> 's \<Rightarrow> error + 's" where
  "foldE f [] s = Inr s"
| "foldE f (x # xs) s = (case f x s of Inl e \<Rightarrow> Inl e | Inr s' \<Rightarrow> foldE f xs s')"

section \<open>Arrays\<close>

text \<open>
  A two-dimensional numpy array is a list of rows; its shape \<open>(H, W)\<close> is carried by the
  buffer that owns it. A colour pixel is a triple of channels.
\<close>

type_synonym 'a image = "'a list list"
type_synonym pixel = "int \<times> int \<times> int"

definition has_shape :: "'a image \<Rightarrow> nat \<Rightarrow> nat \<Rightarrow> bool" where
  "has_shape M m n = (length M = m \<and> list_all (\<lambda>row. length row = n) M)"

text \<open>
  Python's slice \<^verbatim>\<open>a:b\<close> on an axis of length \<open>n\<close>: a negative bound counts from the end,
  both bounds are clipped to the axis, and an empty range results when the stop is not
  after the start. The result is the pair (start, stop) with \<open>start \<le> stop \<le> n\<close>.
\<close>

definition clip_bound :: "nat \<Rightarrow> int \<Rightarrow> nat" where
  "clip_bound n k = (if k < 0 then nat (max 0 (k + int n)) else min (nat k) n)"

definition slice_bounds :: "nat \<Rightarrow> int \<Rightarrow> int \<Rightarrow> nat \<times> nat" where
  "slice_bounds n a b = (clip_bound n a, max (clip_bound n a) (clip_bound n b))"

text \<open>\<^verbatim>\<open>img[r0:r1, c0:c1]\<close> read.\<close>

definition subregion :: "'a image \<Rightarrow> nat \<Rightarrow> nat \<Rightarrow> int \<Rightarrow> int \<Rightarrow> int \<Rightarrow> int \<Rightarrow> 'a image" where
  "subregion img H W a b c d =
     (case (slice_bounds H a b, slice_bounds W c d) of
        ((ra, rb), (ca, cb)) \<Rightarrow>
          map (\<lambda>row. take (cb - ca) (drop ca row)) (take (rb - ra) (drop ra img)))"

text \<open>
  \<^verbatim>\<open>img[r0:r1, c0:c1] = M\<close>. The pipeline returns a mask of the shape of its input; a
  value of another shape is the \<^verbatim>\<open>ValueError\<close> numpy raises when shapes do not fit
  (numpy's broadcasting of one-row and one-column values is not modelled).
\<close>

definition assign_region ::
  "'a image \<Rightarrow> nat \<Rightarrow> nat \<Rightarrow> int \<Rightarrow> int \<Rightarrow> int \<Rightarrow> int \<Rightarrow> 'a image \<Rightarrow> error + 'a image" where
  "assign_region img H W a b c d M =
     (case (slice_bounds H a b, slice_bounds W c d) of
        ((ra, rb), (ca, cb)) \<Rightarrow>
          if has_shape M (rb - ra) (cb - ca)
          then Inr (take ra img
                 @ map2 (\<lambda>row m. take ca row @ m @ drop cb row) (take (rb - ra) (drop ra img)) M
                 @ drop rb img)
          else Inl ValueError)"

text \<open>
  An integer index of numpy on an axis of length \<open>n\<close>: \<open>-n \<le> k < 0\<close> counts from the end,
  anything outside \<open>[-n, n)\<close> raises \<^verbatim>\<open>IndexError\<close>.
\<close>

definition index_ok :: "nat \<Rightarrow> int \<Rightarrow> bool" where
  "index_ok n k = (- int n \<le> k \<and> k < int n)"

definition norm_index :: "nat \<Rightarrow> int \<Rightarrow> nat" where
  "norm_index n k = (if k < 0 then nat (k + int n) else nat k)"

definition set_px :: "'a image \<Rightarrow> nat \<Rightarrow> nat \<Rightarrow> 'a \<Rightarrow> 'a image" where
  "set_px img y x v = img[y := (img ! y)[x := v]]"

text \<open>
  \<^verbatim>\<open>img[rr, cc] = val\<close> with the coordinate arrays \<open>rr\<close>, \<open>cc\<close> given as a list of
  \<open>(row, column)\<close> pairs: every index is checked, then every named pixel is set.
\<close>

definition stamp :: "'a image \<Rightarrow> nat \<Rightarrow> nat \<Rightarrow> (int \<times> int) list \<Rightarrow> 'a \<Rightarrow> error + 'a image" where
  "stamp img H W pts v =
     (if list_all (\<lambda>p. index_ok H (fst p) \<and> index_ok W (snd p)) pts
      then Inr (fold (\<lambda>p im. set_px im (norm_index H (fst p)) (norm_index W (snd p)) v) pts img)
      else Inl IndexError)"

text \<open>Frame \<open>i\<close> of a sequence of frames (\<^verbatim>\<open>arr[i]\<close>).\<close>

definition get_frame :: "'a image list \<Rightarrow> nat \<Rightarrow> error + 'a image" where
  "get_frame fs i = (if i < length fs then Inr (fs ! i) else Inl IndexError)"

section \<open>The region of interest\<close>

text \<open>\<^verbatim>\<open>ROI_LIFESPAN = 30\<close>, the constant of the script.\<close>

definition ROI_LIFESPAN :: int where
  "ROI_LIFESPAN = 30"

text \<open>
  Modelled from the spec: the class \<^verbatim>\<open>ROI\<close> of the package \<^verbatim>\<open>src.video\<close>, which is not among
  the sources. The script constructs it as \<^verbatim>\<open>ROI(w, h, y, x, vy, vx, health)\<close>, reads its
  fields \<^verbatim>\<open>r0, r1, c0, c1\<close> (the bounding box), \<^verbatim>\<open>vy, vx\<close> (the triangle) and \<^verbatim>\<open>health\<close>, and
  uses \<^verbatim>\<open>dead\<close>, \<^verbatim>\<open>punish()\<close> and \<^verbatim>\<open>intersects(other)\<close>. The record holds what the constructor
  is given (the frame extent \<open>frame_w\<close>, \<open>frame_h\<close>, the barycenter \<open>bary_y\<close>, \<open>bary_x\<close>, the
  vertices and the health) and the bounding box (spec, section 3).
\<close>

record roi =
  frame_w :: int
  frame_h :: int
  bary_y :: int
  bary_x :: int
  vy :: "int \<times> int \<times> int"
  vx :: "int \<times> int \<times> int"
  health :: int
  r0 :: int
  r1 :: int
  c0 :: int
  c1 :: int

text \<open>
  Modelled from the spec: the constructor of \<^verbatim>\<open>ROI\<close> (missing with the class). It stores its
  arguments, health included (section 3: health is initialised on creation). The spec says
  that the bounding box is derived from the barycenter and a margin and not how, so the
  derivation is the parameter \<open>bb\<close>; it may use every argument but the health.
\<close>

type_synonym bbox_fun =
  "int \<Rightarrow> int \<Rightarrow> int \<Rightarrow> int \<Rightarrow> int \<times> int \<times> int \<Rightarrow> int \<times> int \<times> int \<Rightarrow> int \<times> int \<times> int \<times> int"

definition ROI ::
  "bbox_fun \<Rightarrow> int \<Rightarrow> int \<Rightarrow> int \<Rightarrow> int \<Rightarrow> int \<times> int \<times> int \<Rightarrow> int \<times> int \<times> int \<Rightarrow> int \<Rightarrow> roi" where
  "ROI bb w h y x ys xs hl =
     (case bb w h y x ys xs of
        (a, b, c, d) \<Rightarrow>
          \<lparr>frame_w = w, frame_h = h, bary_y = y, bary_x = x, vy = ys, vx = xs, health = hl,
           r0 = a, r1 = b, c0 = c, c1 = d\<rparr>)"

text \<open>
  Modelled from the spec: the property \<^verbatim>\<open>ROI.dead\<close> (missing with the class); section 3: a
  region is dead when its health is 0.
\<close>

definition dead :: "roi \<Rightarrow> bool" where
  "dead r = (health r = 0)"

text \<open>
  Modelled from the spec: the method \<^verbatim>\<open>ROI.punish\<close> (missing with the class); section 4.3:
  punishment decrements the health by one. The script calls it on the object that it then
  appends to the new list; the model returns the changed region.
\<close>

definition punish :: "roi \<Rightarrow> roi" where
  "punish r = r\<lparr>health := health r - 1\<rparr>"

text \<open>
  Modelled from the spec: the method \<^verbatim>\<open>ROI.intersects\<close> (missing with the class); section
  4.1: the bounding boxes overlap, with strict inequalities, so that boxes which only touch
  do not intersect.
\<close>

definition intersects :: "roi \<Rightarrow> roi \<Rightarrow> bool" where
  "intersects a b = (r0 a < r1 b \<and> r0 b < r1 a \<and> c0 a < c1 b \<and> c0 b < c1 a)"

section \<open>The external collaborators\<close>

text \<open>
  A detection is a triple of keys with a barycenter \<open>(y, x)\<close>; the points of interest map a
  pair of keys to a point. \<open>detect\<close> returns the detections in the order in which Python
  iterates over them.
\<close>

type_synonym 'k detection = "('k \<times> 'k \<times> 'k) \<times> (int \<times> int)"
type_synonym 'k pois = "'k \<times> 'k \<Rightarrow> (int \<times> int) option"

text \<open>
  The pipeline backend (\<^verbatim>\<open>video.Pipeline\<close>, external): three deterministic stages and the
  two mode flags \<^verbatim>\<open>pipe.binary\<close> and \<^verbatim>\<open>pipe.edges\<close>.
\<close>

record 'k pipeline =
  binarize :: "pixel image \<Rightarrow> int image"
  edge :: "int image \<Rightarrow> int image"
  detect :: "int image \<Rightarrow> int image \<Rightarrow> 'k detection list \<times> 'k pois"
  pbinary :: bool
  pedges :: bool

text \<open>
  What the script takes from outside the sources: the bounding box of a new region
  (\<open>bbox\<close>, see above), the three drawing routines of \<^verbatim>\<open>skimage.draw\<close>, which return the
  coordinates to paint, and the two marker values that are computed in floating point:
  \<open>scale val health\<close> is what is stored for \<^verbatim>\<open>val * (roi.health / ROI_LIFESPAN)\<close> and
  \<open>red health\<close> is \<^verbatim>\<open>int(255 * roi.health / ROI_LIFESPAN)\<close>.
\<close>

record deps =
  bbox :: bbox_fun
  polygon_perimeter :: "int list \<Rightarrow> int list \<Rightarrow> nat \<times> nat \<Rightarrow> (int \<times> int) list"
  circle :: "int \<Rightarrow> int \<Rightarrow> int \<Rightarrow> nat \<times> nat \<Rightarrow> (int \<times> int) list"
  circle_perimeter :: "int \<Rightarrow> int \<Rightarrow> int \<Rightarrow> (int \<times> int) list"
  scale :: "int \<Rightarrow> int \<Rightarrow> int"
  red :: "int \<Rightarrow> int"

section \<open>The frame buffer and the state of a run\<close>

text \<open>
  Modelled from the spec: the class \<^verbatim>\<open>Buffer\<close> of \<^verbatim>\<open>src.video\<close> (not among the sources):
  three index-aligned sequences of frames of one height and width, \<open>original\<close> the loaded
  video and \<open>binary\<close>, \<open>edges\<close> zero-filled; iterating over the buffer yields each index with
  the frame \<open>original[i]\<close>, which the script then changes in place.
\<close>

record buffer =
  original :: "pixel image list"
  binary :: "int image list"
  edges :: "int image list"
  height :: nat
  width :: nat

text \<open>
  Modelled from the spec: the constructor \<^verbatim>\<open>Buffer(vid)\<close> (missing with the class); section
  4.4: \<open>original\<close> is the loaded video, \<open>binary\<close> and \<open>edges\<close> are zero-filled and of the
  same extent. \<open>H\<close> and \<open>W\<close> are the height and width of the video's frames.
\<close>

definition Buffer :: "pixel image list \<Rightarrow> nat \<Rightarrow> nat \<Rightarrow> buffer" where
  "Buffer vid H W =
     \<lparr>original = vid,
      binary = replicate (length vid) (replicate H (replicate W 0)),
      edges = replicate (length vid) (replicate H (replicate W 0)),
      height = H, width = W\<rparr>"

text \<open>
  The calls the script makes, in order: each entry into one of its two scan routines and
  each call of a pipeline stage with the data the stage receives. The trace is not a
  variable of the script; it records what the script does to its collaborators.
\<close>

datatype event =
    Full_scan nat
  | Roi_scan nat roi
  | Binarize "pixel image"
  | Edge "int image"
  | Detect "int image" "int image"

record state =
  buf :: buffer
  trace :: "event list"

definition log :: "event \<Rightarrow> state \<Rightarrow> state" where
  "log e st = st\<lparr>trace := trace st @ [e]\<rparr>"

definition set_binary :: "int image list \<Rightarrow> state \<Rightarrow> state" where
  "set_binary fs st = st\<lparr>buf := (buf st)\<lparr>binary := fs\<rparr>\<rparr>"

definition set_edges :: "int image list \<Rightarrow> state \<Rightarrow> state" where
  "set_edges fs st = st\<lparr>buf := (buf st)\<lparr>edges := fs\<rparr>\<rparr>"

definition set_original :: "pixel image list \<Rightarrow> state \<Rightarrow> state" where
  "set_original fs st = st\<lparr>buf := (buf st)\<lparr>original := fs\<rparr>\<rparr>"

section \<open>Drawing\<close>

text \<open>\<^verbatim>\<open>_draw_vertices(frame, roi)\<close>, the frame being \<open>original[i]\<close>.\<close>

definition draw_vertices :: "deps \<Rightarrow> nat \<Rightarrow> nat \<Rightarrow> roi \<Rightarrow> pixel image \<Rightarrow> error + pixel image" where
  "draw_vertices D H W roi frame =
     (case (vy roi, vx roi) of
        ((ya, yb, yc), (xa, xb, xc)) \<Rightarrow>
          stamp frame H W (polygon_perimeter D [ya, yb, yc, ya] [xa, xb, xc, xa] (H, W))
            (red D (health roi), 0, 0))"

text \<open>
  \<^verbatim>\<open>_draw_roi(arr, i, roi, val)\<close> on the frame \<open>arr[i]\<close>: the rectangle one pixel around the
  box, the filled disc of radius 5 at its top left corner in the scaled value \<open>sval\<close>, and
  the outline of that disc (whose coordinates are not clipped to the frame).
\<close>

definition draw_roi :: "deps \<Rightarrow> nat \<Rightarrow> nat \<Rightarrow> roi \<Rightarrow> 'a \<Rightarrow> 'a \<Rightarrow> 'a image \<Rightarrow> error + 'a image" where
  "draw_roi D H W roi val sval img =
     (let y0 = r0 roi - 1; y1 = r1 roi; x0 = c0 roi - 1; x1 = c1 roi in
      case stamp img H W
             (polygon_perimeter D [y0, y0, y1, y1, y0] [x0, x1, x1, x0, x0] (H, W)) val of
        Inl e \<Rightarrow> Inl e
      | Inr img1 \<Rightarrow>
          (case stamp img1 H W (circle D y0 x0 5 (H, W)) sval of
             Inl e \<Rightarrow> Inl e
           | Inr img2 \<Rightarrow> stamp img2 H W (circle_perimeter D y0 x0 5) val))"

section \<open>Detections to regions\<close>

text \<open>\<^verbatim>\<open>_get_vertices(keys, pois)\<close>: a missing pair of keys is a \<^verbatim>\<open>KeyError\<close>.\<close>

definition get_vertices ::
  "'k \<times> 'k \<times> 'k \<Rightarrow> 'k pois \<Rightarrow> error + ((int \<times> int \<times> int) \<times> (int \<times> int \<times> int))" where
  "get_vertices keys ps =
     (case keys of
        (p0, p1, p2) \<Rightarrow>
          (case ps (p0, p1) of None \<Rightarrow> Inl KeyError
           | Some (ya, xa) \<Rightarrow>
          (case ps (p0, p2) of None \<Rightarrow> Inl KeyError
           | Some (yb, xb) \<Rightarrow>
          (case ps (p1, p2) of None \<Rightarrow> Inl KeyError
           | Some (yc, xc) \<Rightarrow> Inr ((ya, yb, yc), (xa, xb, xc))))))"

text \<open>
  \<^verbatim>\<open>_find_rois(buf, frame, barycenters, pois)\<close>; \<open>w\<close> and \<open>h\<close> are the second and third
  component of \<^verbatim>\<open>buf.original.shape\<close>. \<open>find_step\<close> is the body of its loop.
\<close>

definition find_step :: "deps \<Rightarrow> buffer \<Rightarrow> 'k pois \<Rightarrow> 'k detection \<Rightarrow> roi list \<Rightarrow> error + roi list" where
  "find_step D B ps det rois =
     (case get_vertices (fst det) ps of
        Inl e \<Rightarrow> Inl e
      | Inr v \<Rightarrow>
          Inr (rois @ [ROI (bbox D) (int (height B)) (int (width B))
                         (fst (snd det)) (snd (snd det)) (fst v) (snd v) ROI_LIFESPAN]))"

definition find_rois ::
  "deps \<Rightarrow> buffer \<Rightarrow> 'k detection list \<Rightarrow> 'k pois \<Rightarrow> error + roi list" where
  "find_rois D B barycenters ps = foldE (find_step D B ps) barycenters []"

text \<open>\<^verbatim>\<open>_merge_rois(w, h, roi, barycenter, pois, new_rois)\<close>, returning the new list.\<close>

definition shift3 :: "int \<Rightarrow> int \<times> int \<times> int \<Rightarrow> int \<times> int \<times> int" where
  "shift3 d t = (case t of (a, b, c) \<Rightarrow> (d + a, d + b, d + c))"

definition merge_rois ::
  "deps \<Rightarrow> int \<Rightarrow> int \<Rightarrow> roi \<Rightarrow> 'k detection \<Rightarrow> 'k pois \<Rightarrow> roi list \<Rightarrow> error + roi list" where
  "merge_rois D w h roi barycenter ps new_rois =
     (case get_vertices (fst barycenter) ps of
        Inl e \<Rightarrow> Inl e
      | Inr v \<Rightarrow>
          (let new_roi = ROI (bbox D) w h (fst (snd barycenter)) (snd (snd barycenter))
                           (shift3 (r0 roi) (fst v)) (shift3 (c0 roi) (snd v)) ROI_LIFESPAN
           in if \<not> list_ex (\<lambda>r. intersects new_roi r) new_rois
              then Inr (new_rois @ [new_roi])
              else Inr new_rois))"

section \<open>The two scans\<close>

text \<open>\<^verbatim>\<open>arr[i] = M\<close>: the whole frame \<open>i\<close> is replaced by a value of the frame's shape.\<close>

definition set_frame :: "'a image list \<Rightarrow> nat \<Rightarrow> nat \<Rightarrow> nat \<Rightarrow> 'a image \<Rightarrow> error + 'a image list" where
  "set_frame fs H W i M =
     (if \<not> i < length fs then Inl IndexError
      else if has_shape M H W then Inr (fs[i := M])
      else Inl ValueError)"

text \<open>\<^verbatim>\<open>_scan_full(buf, frame, i, pipe)\<close>.\<close>

definition scan_full ::
  "deps \<Rightarrow> 'k pipeline \<Rightarrow> pixel image \<Rightarrow> nat \<Rightarrow> state \<Rightarrow> error + (roi list \<times> state)" where
  "scan_full D pipe frame i st0 =
     (let H = height (buf st0); W = width (buf st0);
          segments = binarize pipe frame;
          st1 = log (Binarize frame) (log (Full_scan i) st0)
      in case set_frame (binary (buf st1)) H W i segments of
           Inl e \<Rightarrow> Inl e
         | Inr bs \<Rightarrow>
             (let st2 = set_binary bs st1 in
              if pbinary pipe \<and> \<not> pedges pipe then Inr ([], st2)
              else
                (let edges' = edge pipe segments;
                     st3 = log (Edge segments) st2
                 in case set_frame (edges (buf st3)) H W i edges' of
                      Inl e \<Rightarrow> Inl e
                    | Inr es \<Rightarrow>
                        (let st4 = set_edges es st3 in
                         if pedges pipe then Inr ([], st4)
                         else
                           (let found = detect pipe edges' segments;
                                st5 = log (Detect edges' segments) st4
                            in case find_rois D (buf st5) (fst found) (snd found) of
                                 Inl e \<Rightarrow> Inl e
                               | Inr rois \<Rightarrow> Inr (rois, st5))))))"

text \<open>
  \<^verbatim>\<open>_scan_roi(buf, frame, i, pipe, roi)\<close>. \<open>b1\<close> is frame \<open>i\<close> of \<^verbatim>\<open>buf.binary\<close> after the
  segmentation of the sub-region has been written into it and \<open>b2\<close> after the marker has
  been drawn on it; \<open>e1\<close> and \<open>e2\<close> are the same for \<^verbatim>\<open>buf.edges\<close>.
\<close>

definition scan_roi ::
  "deps \<Rightarrow> 'k pipeline \<Rightarrow> pixel image \<Rightarrow> nat \<Rightarrow> roi \<Rightarrow> state
     \<Rightarrow> error + (('k detection list \<times> 'k pois) \<times> state)" where
  "scan_roi D pipe frame i roi st0 =
     (let H = height (buf st0); W = width (buf st0);
          a = r0 roi; b = r1 roi; c = c0 roi; d = c1 roi;
          mark = scale D 255 (health roi);
          part = subregion frame H W a b c d;
          st1 = log (Binarize part) (log (Roi_scan i roi) st0)
      in case get_frame (binary (buf st1)) i of
           Inl e \<Rightarrow> Inl e
         | Inr b0 \<Rightarrow>
      (case assign_region b0 H W a b c d (binarize pipe part) of
           Inl e \<Rightarrow> Inl e
         | Inr b1 \<Rightarrow>
      (case draw_roi D H W roi 255 mark b1 of
           Inl e \<Rightarrow> Inl e
         | Inr b2 \<Rightarrow>
      (let st2 = set_binary ((binary (buf st1))[i := b2]) st1;
           bpart = subregion (binary (buf st2) ! i) H W a b c d;
           st3 = log (Edge bpart) st2
       in case get_frame (edges (buf st3)) i of
           Inl e \<Rightarrow> Inl e
         | Inr e0 \<Rightarrow>
      (case assign_region e0 H W a b c d (edge pipe bpart) of
           Inl e \<Rightarrow> Inl e
         | Inr e1 \<Rightarrow>
      (case draw_roi D H W roi 255 mark e1 of
           Inl e \<Rightarrow> Inl e
         | Inr e2 \<Rightarrow>
      (let st4 = set_edges ((edges (buf st3))[i := e2]) st3;
           epart = subregion (edges (buf st4) ! i) H W a b c d;
           bpart' = subregion (binary (buf st4) ! i) H W a b c d;
           st5 = log (Detect epart bpart') st4
       in Inr (detect pipe epart bpart', st5))))))))"

section \<open>One frame\<close>

text \<open>The body of the loop \<^verbatim>\<open>for roi in rois:\<close> of \<^verbatim>\<open>_process\<close>.\<close>

definition roi_step ::
  "deps \<Rightarrow> 'k pipeline \<Rightarrow> pixel image \<Rightarrow> nat \<Rightarrow> roi \<Rightarrow> roi list \<times> state
     \<Rightarrow> error + (roi list \<times> state)" where
  "roi_step D pipe frame i roi acc =
     (case acc of
        (new_rois, st) \<Rightarrow>
          (case scan_roi D pipe frame i roi st of
             Inl e \<Rightarrow> Inl e
           | Inr ((barycenters, ps), st') \<Rightarrow>
               (case barycenters of
                  b # _ \<Rightarrow>
                    (case merge_rois D (int (height (buf st'))) (int (width (buf st')))
                            roi b ps new_rois of
                       Inl e \<Rightarrow> Inl e
                     | Inr nr \<Rightarrow> Inr (nr, st'))
                | [] \<Rightarrow>
                    if \<not> dead roi then Inr (new_rois @ [punish roi], st')
                    else Inr (new_rois, st'))))"

text \<open>\<^verbatim>\<open>frame //= 3\<close> on the colour frame.\<close>

definition darken :: "pixel image \<Rightarrow> pixel image" where
  "darken frame = map (map (\<lambda>p. case p of (r, g, b) \<Rightarrow> (r div 3, g div 3, b div 3))) frame"

text \<open>The body of the drawing loop \<^verbatim>\<open>for roi in new_rois:\<close> on the frame \<open>original[i]\<close>.\<close>

definition draw_step :: "deps \<Rightarrow> nat \<Rightarrow> nat \<Rightarrow> roi \<Rightarrow> pixel image \<Rightarrow> error + pixel image" where
  "draw_step D H W roi frame =
     (case draw_vertices D H W roi frame of
        Inl e \<Rightarrow> Inl e
      | Inr f1 \<Rightarrow>
          draw_roi D H W roi (255, 255, 255)
            (scale D 255 (health roi), scale D 255 (health roi), scale D 255 (health roi)) f1)"

text \<open>
  \<^verbatim>\<open>_process(buf, frame, i, pipe, rois)\<close>. The frame passed in is \<open>original[i]\<close>; darkening
  and drawing change that frame of the buffer.
\<close>

definition process_frame ::
  "deps \<Rightarrow> 'k pipeline \<Rightarrow> pixel image \<Rightarrow> nat \<Rightarrow> roi list \<Rightarrow> state
     \<Rightarrow> error + (roi list \<times> state)" where
  "process_frame D pipe frame i rois st =
     (let rescan = (i mod 15 = 0);
          no_rois = (length rois = 0)
      in case (if rescan \<or> no_rois then scan_full D pipe frame i st else Inr ([], st)) of
           Inl e \<Rightarrow> Inl e
         | Inr acc0 \<Rightarrow>
      (case foldE (roi_step D pipe frame i) rois acc0 of
           Inl e \<Rightarrow> Inl e
         | Inr (new_rois, st') \<Rightarrow>
      (case get_frame (original (buf st')) i of
           Inl e \<Rightarrow> Inl e
         | Inr f \<Rightarrow>
      (case foldE (draw_step D (height (buf st')) (width (buf st'))) new_rois (darken f) of
           Inl e \<Rightarrow> Inl e
         | Inr f' \<Rightarrow> Inr (new_rois, set_original ((original (buf st'))[i := f']) st')))))"

section \<open>The run\<close>

text \<open>
  The loop \<^verbatim>\<open>for i, frame in buf:\<close> of \<^verbatim>\<open>process\<close> over the frame indices \<open>ixs\<close>, carrying the
  active list of regions and the state; frame \<open>i\<close> is read from the buffer when its turn
  comes. The iteration only yields indices of the buffer; an index outside it is the
  \<^verbatim>\<open>IndexError\<close> of reading that frame.
\<close>

definition frame_step ::
  "deps \<Rightarrow> 'k pipeline \<Rightarrow> nat \<Rightarrow> roi list \<times> state \<Rightarrow> error + (roi list \<times> state)" where
  "frame_step D pipe i acc =
     (case acc of
        (rois, st) \<Rightarrow>
          if i < length (original (buf st))
          then process_frame D pipe (original (buf st) ! i) i rois st
          else Inl IndexError)"

definition run_frames ::
  "deps \<Rightarrow> 'k pipeline \<Rightarrow> nat list \<Rightarrow> roi list \<times> state \<Rightarrow> error + (roi list \<times> state)" where
  "run_frames D pipe ixs acc = foldE (frame_step D pipe) ixs acc"

text \<open>
  Modelled from the spec: the constructor \<^verbatim>\<open>video.Pipeline(config, only_binary, only_edges)\<close>
  (not among the sources) keeps its two mode arguments as \<^verbatim>\<open>pipe.binary\<close> and
  \<^verbatim>\<open>pipe.edges\<close>; the stages configured from \<open>config\<close> are the parameter \<open>backend\<close>.
\<close>

definition Pipeline :: "'k pipeline \<Rightarrow> bool \<Rightarrow> bool \<Rightarrow> 'k pipeline" where
  "Pipeline backend only_binary only_edges = backend\<lparr>pbinary := only_binary, pedges := only_edges\<rparr>"

text \<open>
  \<^verbatim>\<open>process(vid, only, config)\<close> for a video of \<open>length vid\<close> frames of shape \<open>(H, W, 3)\<close>.
  \<open>start_pipe\<close> is the pipeline it builds (\<^verbatim>\<open>only_binary = only_edges or only_binary\<close>),
  \<open>start_state\<close> the buffer it starts with, \<open>process_run\<close> the loop with the list of
  regions and the state it ends in, and \<open>process\<close> returns the buffer as the script does.
  The progress bar, the timer and the printed statistics are left out.
\<close>

definition start_pipe :: "'k pipeline \<Rightarrow> bool \<times> bool \<Rightarrow> 'k pipeline" where
  "start_pipe backend only =
     (case only of
        (only_binary, only_edges) \<Rightarrow> Pipeline backend (only_edges \<or> only_binary) only_edges)"

definition start_state :: "pixel image list \<Rightarrow> nat \<Rightarrow> nat \<Rightarrow> state" where
  "start_state vid H W = \<lparr>buf = Buffer vid H W, trace = []\<rparr>"

definition process_run ::
  "deps \<Rightarrow> 'k pipeline \<Rightarrow> pixel image list \<Rightarrow> nat \<Rightarrow> nat \<Rightarrow> bool \<times> bool
     \<Rightarrow> error + (roi list \<times> state)" where
  "process_run D backend vid H W only =
     run_frames D (start_pipe backend only) [0 ..< length vid] ([], start_state vid H W)"

definition process ::
  "deps \<Rightarrow> 'k pipeline \<Rightarrow> pixel image list \<Rightarrow> nat \<Rightarrow> nat \<Rightarrow> bool \<times> bool \<Rightarrow> error + buffer" where
  "process D backend vid H W only =
     (case process_run D backend vid H W only of
        Inl e \<Rightarrow> Inl e
      | Inr res \<Rightarrow> Inr (buf (snd res)))"

section \<open>A concrete setting for the examples\<close>

text \<open>
  Stand-ins for the parts outside the sources, used where a theorem is run on an input.
  The bounding box is the barycenter with a margin of 2, clipped to the frame. The drawing
  routines follow the documented behaviour of \<^verbatim>\<open>skimage.draw\<close>: \<open>polygon_perimeter\<close> joins
  consecutive vertices by rasterised segments (exact for the axis-parallel segments of the
  rectangle of \<open>draw_roi\<close>) and keeps the points inside the shape, \<open>circle\<close> is the set of
  pixels of the shape at distance less than the radius from the centre, and
  \<open>circle_perimeter\<close> is the midpoint circle, not clipped.
\<close>

definition margin_box :: bbox_fun where
  "margin_box w h y x ys xs = (max 0 (y - 2), min w (y + 2), max 0 (x - 2), min h (x + 2))"

definition segment :: "int \<times> int \<Rightarrow> int \<times> int \<Rightarrow> (int \<times> int) list" where
  "segment p q =
     (let dy = fst q - fst p; dx = snd q - snd p; n = max \<bar>dy\<bar> \<bar>dx\<bar>
      in if n = 0 then [p]
         else map (\<lambda>k. (fst p + (2 * int k * dy + n) div (2 * n),
                        snd p + (2 * int k * dx + n) div (2 * n))) [0 ..< Suc (nat n)])"

fun segments :: "(int \<times> int) list \<Rightarrow> (int \<times> int) list" where
  "segments (p # q # ps) = segment p q @ segments (q # ps)"
| "segments ps = []"

definition inside :: "nat \<times> nat \<Rightarrow> int \<times> int \<Rightarrow> bool" where
  "inside shape p = (0 \<le> fst p \<and> fst p < int (fst shape) \<and> 0 \<le> snd p \<and> snd p < int (snd shape))"

definition sk_polygon_perimeter :: "int list \<Rightarrow> int list \<Rightarrow> nat \<times> nat \<Rightarrow> (int \<times> int) list" where
  "sk_polygon_perimeter rs cs shape = filter (inside shape) (segments (zip rs cs))"

definition sk_circle :: "int \<Rightarrow> int \<Rightarrow> int \<Rightarrow> nat \<times> nat \<Rightarrow> (int \<times> int) list" where
  "sk_circle y x rad shape =
     concat (map (\<lambda>a. map (\<lambda>b. (int a, int b))
                        (filter (\<lambda>b. (int a - y) * (int a - y) + (int b - x) * (int b - x) < rad * rad)
                           [0 ..< snd shape]))
               [0 ..< fst shape])"

fun octants :: "nat \<Rightarrow> int \<Rightarrow> int \<Rightarrow> int \<Rightarrow> (int \<times> int) list" where
  "octants 0 c r d = []"
| "octants (Suc n) c r d =
     (if c \<le> r
      then [(r, c), (- r, c), (r, - c), (- r, - c), (c, r), (- c, r), (c, - r), (- c, - r)]
           @ (if d < 0 then octants n (c + 1) r (d + 4 * c + 6)
              else octants n (c + 1) (r - 1) (d + 4 * (c - r) + 10))
      else [])"

definition sk_circle_perimeter :: "int \<Rightarrow> int \<Rightarrow> int \<Rightarrow> (int \<times> int) list" where
  "sk_circle_perimeter y x rad =
     map (\<lambda>p. (fst p + y, snd p + x)) (octants (Suc (nat rad)) 0 rad (3 - 2 * rad))"

definition D0 :: deps where
  "D0 = \<lparr>bbox = margin_box, polygon_perimeter = sk_polygon_perimeter, circle = sk_circle,
         circle_perimeter = sk_circle_perimeter,
         scale = (\<lambda>v hl. (v * hl) div ROI_LIFESPAN),
         red = (\<lambda>hl. (255 * hl) div ROI_LIFESPAN)\<rparr>"

text \<open>
  A backend: a pixel is segmented (value 200) when its red channel exceeds 100, the edge
  mask is the segmentation, and \<open>detect\<close> reports one triangle around the first pixel of
  value 200 of the edge mask, if there is one, with the keys 0, 1, 2.
\<close>

definition first_px :: "int \<Rightarrow> int image \<Rightarrow> (int \<times> int) option" where
  "first_px v img =
     (case concat (map (\<lambda>yr. map (\<lambda>xp. (int (fst yr), int (fst xp)))
                              (filter (\<lambda>xp. snd xp = v) (enumerate 0 (snd yr))))
                     (enumerate 0 img)) of
        [] \<Rightarrow> None
      | p # _ \<Rightarrow> Some p)"

definition triangle :: "int \<times> int \<Rightarrow> nat pois" where
  "triangle p = [(0, 1) \<mapsto> (fst p - 1, snd p), (0, 2) \<mapsto> (fst p + 1, snd p - 1),
                 (1, 2) \<mapsto> (fst p + 1, snd p + 1)]"

definition P0 :: "nat pipeline" where
  "P0 = \<lparr>binarize = map (map (\<lambda>p. if 100 < fst p then 200 else 0)),
         edge = (\<lambda>m. m),
         detect = (\<lambda>e b. case first_px 200 e of
                            None \<Rightarrow> ([], Map.empty)
                          | Some p \<Rightarrow> ([((0, 1, 2), p)], triangle p)),
         pbinary = False, pedges = False\<rparr>"

text \<open>
  Frames of 6 by 6 pixels: black but for one red pixel, or all black. A region around the
  barycenter (3, 3), as a full scan of \<open>spot_frame 3 3\<close> creates it.
\<close>

definition black_frame :: "pixel image" where
  "black_frame = replicate 6 (replicate 6 (0, 0, 0))"

definition spot_frame :: "nat \<Rightarrow> nat \<Rightarrow> pixel image" where
  "spot_frame y x = black_frame[y := (black_frame ! y)[x := (255, 0, 0)]]"

definition roi0 :: roi where
  "roi0 = ROI margin_box 6 6 3 3 (2, 4, 4) (3, 2, 4) ROI_LIFESPAN"

section \<open>The command line and the exit status\<close>

text \<open>
  The namespace \<^verbatim>\<open>argparse\<close> returns: \<open>config\<close> is \<open>None\<close> when \<^verbatim>\<open>--config\<close> is not given (the
  argument has \<^verbatim>\<open>nargs=1\<close> and no default) and the list of its one value otherwise; the three
  flags are \<^verbatim>\<open>store_true\<close> options.
\<close>

record args =
  f_in :: string
  f_out :: string
  config :: "string list option"
  arg_binary :: bool
  arg_edges :: bool
  save_all :: bool

text \<open>How the program ends: \<^verbatim>\<open>sys.exit(code)\<close>, or an exception nobody catches.\<close>

datatype ending = Exit int | Uncaught error

text \<open>The status the interpreter reports: 1 for an uncaught exception.\<close>

fun exit_code :: "ending \<Rightarrow> int" where
  "exit_code (Exit n) = n"
| "exit_code (Uncaught e) = 1"

text \<open>The checks of \<^verbatim>\<open>parse_args\<close> on the parsed namespace; \<open>Inl code\<close> is \<^verbatim>\<open>sys.exit(code)\<close>.\<close>

definition parse_args :: "args \<Rightarrow> int + args" where
  "parse_args a =
     (if arg_binary a \<and> arg_edges a then Inl 2
      else if save_all a \<and> (arg_binary a \<or> arg_edges a) then Inl 2
      else Inr a)"

text \<open>
  A video file as \<^verbatim>\<open>skvideo.io.vread\<close> returns it: an array of shape
  \<open>(n, h, w, depth)\<close>; the frames are colour frames when the depth is 3.
\<close>

record video =
  frames :: "pixel image list"
  vheight :: nat
  vwidth :: nat
  depth :: nat

text \<open>\<^verbatim>\<open>load(fname)\<close>, applied to the array read from the file.\<close>

definition load :: "video \<Rightarrow> int + video" where
  "load vid = (if depth vid \<noteq> 3 then Inl 2 else Inr vid)"

text \<open>
  What \<^verbatim>\<open>main\<close> finds outside: the video stored under a file name, whether a configuration
  file has a section \<^verbatim>\<open>options\<close>, and the stages of the pipeline for a configuration.
\<close>

record 'k world =
  video_at :: "string \<Rightarrow> video"
  has_options :: "string \<Rightarrow> bool"
  backend_of :: "string option \<Rightarrow> 'k pipeline"

text \<open>
  \<^verbatim>\<open>main(args)\<close>. \<^verbatim>\<open>len(args.config)\<close> is evaluated first and raises \<^verbatim>\<open>TypeError\<close> on \<open>None\<close>.
  Writing the result (\<^verbatim>\<open>_save\<close>) is left out; after it the script ends with status 0.
\<close>

definition main :: "deps \<Rightarrow> 'k world \<Rightarrow> args \<Rightarrow> ending" where
  "main D wd a =
     (case config a of
        None \<Rightarrow> Uncaught TypeError
      | Some cs \<Rightarrow>
          if 0 < length cs \<and> \<not> has_options wd (hd cs) then Exit 2
          else
            (case load (video_at wd (f_in a)) of
               Inl code \<Rightarrow> Exit code
             | Inr vid \<Rightarrow>
                 (case process D (backend_of wd (if cs = [] then None else Some (hd cs)))
                         (frames vid) (vheight vid) (vwidth vid) (arg_binary a, arg_edges a) of
                    Inl e \<Rightarrow> Uncaught e
                  | Inr b \<Rightarrow> Exit 0)))"

text \<open>The script: \<^verbatim>\<open>args = parse_args(); main(args)\<close>.\<close>

definition script :: "deps \<Rightarrow> 'k world \<Rightarrow> args \<Rightarrow> ending" where
  "script D wd a = (case parse_args a of Inl code \<Rightarrow> Exit code | Inr a' \<Rightarrow> main D wd a')"

section \<open>Reading the trace\<close>

text \<open>The entries of a trace that are entries into a scan routine.\<close>

fun is_scan :: "event \<Rightarrow> bool" where
  "is_scan (Full_scan i) = True"
| "is_scan (Roi_scan i r) = True"
| "is_scan e = False"

definition scans :: "event list \<Rightarrow> event list" where
  "scans tr = filter is_scan tr"

text \<open>
  A backend whose \<open>detect\<close> always reports two triangles, around (3, 3) and around (3, 2);
  the boxes of the two regions overlap.
\<close>

definition P2 :: "nat pipeline" where
  "P2 = P0\<lparr>detect := (\<lambda>e b. ([((0, 1, 2), (3, 3)), ((0, 1, 2), (3, 2))], triangle (3, 3)))\<rparr>"

definition roi1 :: roi where
  "roi1 = ROI margin_box 6 6 3 2 (2, 4, 4) (3, 2, 4) ROI_LIFESPAN"

section \<open>Regions of detections\<close>

text \<open>
  \<open>is_roi_of D w h ps det r\<close>: the region \<open>r\<close> is the one the constructor builds from the
  detection \<open>det\<close> with the vertices that \<open>get_vertices\<close> finds for it in \<open>ps\<close>, in the
  coordinates in which they were reported, with full health.
\<close>

definition is_roi_of :: "deps \<Rightarrow> int \<Rightarrow> int \<Rightarrow> 'k pois \<Rightarrow> 'k detection \<Rightarrow> roi \<Rightarrow> bool" where
  "is_roi_of D w h ps det r =
     (get_vertices (fst det) ps = Inr (vy r, vx r)
      \<and> r = ROI (bbox D) w h (fst (snd det)) (snd (snd det)) (vy r) (vx r) ROI_LIFESPAN)"

text \<open>The entries of a trace that belong to tracking: a restricted scan, or a call of \<open>detect\<close>.\<close>

fun is_tracking :: "event \<Rightarrow> bool" where
  "is_tracking (Roi_scan i r) = True"
| "is_tracking (Detect e b) = True"
| "is_tracking e = False"

section \<open>Where a restricted scan writes\<close>

text \<open>
  \<open>marker\<close> lists the coordinates \<open>draw_roi\<close> paints, \<open>hits\<close> says whether a pixel is among
  the pixels a coordinate list names (after numpy's treatment of negative indices), and
  \<open>in_region\<close> whether a pixel lies in the slice \<^verbatim>\<open>[r0:r1, c0:c1]\<close> of a region.
\<close>

definition marker :: "deps \<Rightarrow> nat \<Rightarrow> nat \<Rightarrow> roi \<Rightarrow> (int \<times> int) list" where
  "marker D H W roi =
     (let y0 = r0 roi - 1; y1 = r1 roi; x0 = c0 roi - 1; x1 = c1 roi in
      polygon_perimeter D [y0, y0, y1, y1, y0] [x0, x1, x1, x0, x0] (H, W)
      @ circle D y0 x0 5 (H, W)
      @ circle_perimeter D y0 x0 5)"

definition hits :: "nat \<Rightarrow> nat \<Rightarrow> (int \<times> int) list \<Rightarrow> nat \<times> nat \<Rightarrow> bool" where
  "hits H W pts p =
     list_ex (\<lambda>q. norm_index H (fst q) = fst p \<and> norm_index W (snd q) = snd p) pts"

definition in_region :: "nat \<Rightarrow> nat \<Rightarrow> roi \<Rightarrow> nat \<times> nat \<Rightarrow> bool" where
  "in_region H W roi p =
     (case (slice_bounds H (r0 roi) (r1 roi), slice_bounds W (c0 roi) (c1 roi)) of
        ((ra, rb), (ca, cb)) \<Rightarrow> ra \<le> fst p \<and> fst p < rb \<and> ca \<le> snd p \<and> snd p < cb)"

text \<open>A frame of 12 by 12 pixels with one red pixel, and a region around it.\<close>

definition wide_frame :: "pixel image" where
  "wide_frame =
     (replicate 12 (replicate 12 (0, 0, 0)))[8 := (replicate 12 (0, 0, 0))[8 := (255, 0, 0)]]"

definition roi8 :: roi where
  "roi8 = ROI margin_box 12 12 8 8 (7, 9, 9) (8, 7, 9) ROI_LIFESPAN"

text \<open>
  A call of the script without \<^verbatim>\<open>--config\<close>, a world in which every file is a colour video of
  one frame and every configuration file has its section, and a world in which every video
  has four channels.
\<close>

definition args0 :: args where
  "args0 = \<lparr>f_in = ''in.mp4'', f_out = ''out.mp4'', config = None,
            arg_binary = False, arg_edges = False, save_all = False\<rparr>"

definition world0 :: "nat world" where
  "world0 = \<lparr>video_at = (\<lambda>f. \<lparr>frames = [spot_frame 3 3], vheight = 6, vwidth = 6, depth = 3\<rparr>),
             has_options = (\<lambda>f. True),
             backend_of = (\<lambda>c. P0)\<rparr>"

definition world4 :: "nat world" where
  "world4 = world0\<lparr>video_at := (\<lambda>f. \<lparr>frames = [], vheight = 6, vwidth = 6, depth = 4\<rparr>)\<rparr>"

section \<open>Frames on which nothing is detected\<close>




definition return_video :: "pixel image list" where
  "return_video = [spot_frame 3 3, black_frame, spot_frame 4 4]"

section \<open>State and trace: basic facts\<close>

lemma trace_log [simp]: "trace (log e st) = trace st @ [e]"
  by (simp add: log_def)

lemma buf_log [simp]: "buf (log e st) = buf st"
  by (simp add: log_def)

lemma trace_set_binary [simp]: "trace (set_binary fs st) = trace st"
  by (simp add: set_binary_def)

lemma trace_set_edges [simp]: "trace (set_edges fs st) = trace st"
  by (simp add: set_edges_def)

lemma trace_set_original [simp]: "trace (set_original fs st) = trace st"
  by (simp add: set_original_def)

lemma buf_set_binary [simp]: "buf (set_binary fs st) = (buf st)\<lparr>binary := fs\<rparr>"
  by (simp add: set_binary_def)

lemma buf_set_edges [simp]: "buf (set_edges fs st) = (buf st)\<lparr>edges := fs\<rparr>"
  by (simp add: set_edges_def)

lemma buf_set_original [simp]: "buf (set_original fs st) = (buf st)\<lparr>original := fs\<rparr>"
  by (simp add: set_original_def)

lemma scans_append [simp]: "scans (xs @ ys) = scans xs @ scans ys"
  by (simp add: scans_def)

lemma scans_simps [simp]:
  "scans [] = []"
  "scans (Full_scan i # tr) = Full_scan i # scans tr"
  "scans (Roi_scan i r # tr) = Roi_scan i r # scans tr"
  "scans (Binarize f # tr) = scans tr"
  "scans (Edge m # tr) = scans tr"
  "scans (Detect m n # tr) = scans tr"
  by (simp_all add: scans_def)

lemma foldE_Cons_Inr:
  assumes "foldE f (x # xs) s = Inr t"
  obtains s1 where "f x s = Inr s1" and "foldE f xs s1 = Inr t"
  using assms by (cases "f x s") auto

lemma foldE_append:
  "foldE f (xs @ ys) s = (case foldE f xs s of Inl e \<Rightarrow> Inl e | Inr s1 \<Rightarrow> foldE f ys s1)"
  by (induction xs arbitrary: s) (auto split: sum.splits)

section \<open>What a scan leaves in the trace\<close>

lemma scan_full_trace:
  assumes "scan_full D pipe frame i st = Inr (rs, st')"
  shows "trace st' = trace st @ [Full_scan i, Binarize frame]
           @ (if pbinary pipe \<and> \<not> pedges pipe then []
              else Edge (binarize pipe frame)
                   # (if pedges pipe then []
                      else [Detect (edge pipe (binarize pipe frame)) (binarize pipe frame)]))"
  using assms
  by (auto simp: scan_full_def Let_def split: sum.splits if_splits)

lemma scan_roi_trace:
  assumes "scan_roi D pipe frame i roi st = Inr (res, st')"
  shows "\<exists>p m e b. trace st' = trace st @ [Roi_scan i roi, Binarize p, Edge m, Detect e b]"
  using assms
  by (auto simp: scan_roi_def Let_def split: sum.splits if_splits)

lemma roi_step_scans:
  assumes "roi_step D pipe frame i roi (nr, st) = Inr (nr', st')"
  shows "scans (trace st') = scans (trace st) @ [Roi_scan i roi]"
  using assms
  by (auto simp: roi_step_def split: sum.splits prod.splits list.splits if_splits
           dest!: scan_roi_trace)

lemma roi_loop_scans:
  "foldE (roi_step D pipe frame i) rois (nr, st) = Inr (nr', st')
     \<Longrightarrow> scans (trace st') = scans (trace st) @ map (Roi_scan i) rois"
proof (induction rois arbitrary: nr st)
  case Nil
  then show ?case by simp
next
  case (Cons r rois)
  then obtain nr1 st1 where s: "roi_step D pipe frame i r (nr, st) = Inr (nr1, st1)"
    and l: "foldE (roi_step D pipe frame i) rois (nr1, st1) = Inr (nr', st')"
    by (auto split: sum.splits)
  from Cons.IH[OF l] roi_step_scans[OF s] show ?case by simp
qed

section \<open>The scan scheduler\<close>

text \<open>
  Claim C1. A frame that is processed without an exception enters the full scan exactly
  when \<open>i mod 15 = 0\<close> or the list of regions carried in is empty; it does so once and
  before the first restricted scan; and the restricted scans are those of the regions
  carried in, in their order, one each (the regions a full scan of the same frame finds
  are not scanned).
\<close>

theorem process_frame_scans:
  assumes "process_frame D pipe frame i rois st = Inr (new_rois, st')"
  shows "scans (trace st') =
           scans (trace st)
           @ (if i mod 15 = 0 \<or> rois = [] then [Full_scan i] else [])
           @ map (Roi_scan i) rois"
proof -
  from assms obtain acc0 nr1 st1 where
    f: "(if i mod 15 = 0 \<or> rois = [] then scan_full D pipe frame i st else Inr ([], st)) = Inr acc0"
    and l: "foldE (roi_step D pipe frame i) rois acc0 = Inr (nr1, st1)"
    and t: "trace st' = trace st1"
    by (auto simp: process_frame_def Let_def split: sum.splits prod.splits)
  obtain nr0 st0 where a: "acc0 = (nr0, st0)" by (cases acc0)
  have "scans (trace st0) = scans (trace st) @ (if i mod 15 = 0 \<or> rois = [] then [Full_scan i] else [])"
    using f a by (auto split: if_splits dest!: scan_full_trace)
  with roi_loop_scans[OF l[unfolded a]] t show ?thesis by simp
qed

theorem process_frame_scans_witness:
  "\<exists>nr st'. process_frame D0 P0 (spot_frame 3 3) 0 [roi0] (start_state [spot_frame 3 3] 6 6)
              = Inr (nr, st')
     \<and> scans (trace st') = [Full_scan 0, Roi_scan 0 roi0]"
proof -
  have "\<not> isl (process_frame D0 P0 (spot_frame 3 3) 0 [roi0] (start_state [spot_frame 3 3] 6 6))"
    by code_simp
  then obtain nr st' where
    h: "process_frame D0 P0 (spot_frame 3 3) 0 [roi0] (start_state [spot_frame 3 3] 6 6)
          = Inr (nr, st')"
    by (cases "process_frame D0 P0 (spot_frame 3 3) 0 [roi0] (start_state [spot_frame 3 3] 6 6)")
       auto
  from process_frame_scans[OF h] have "scans (trace st') = [Full_scan 0, Roi_scan 0 roi0]"
    by (simp add: start_state_def)
  with h show ?thesis by blast
qed

section \<open>Regions and restricted scans: basic facts\<close>

lemma ROI_sel [simp]:
  "frame_w (ROI bb w h y x ys xs hl) = w"
  "frame_h (ROI bb w h y x ys xs hl) = h"
  "bary_y (ROI bb w h y x ys xs hl) = y"
  "bary_x (ROI bb w h y x ys xs hl) = x"
  "vy (ROI bb w h y x ys xs hl) = ys"
  "vx (ROI bb w h y x ys xs hl) = xs"
  "health (ROI bb w h y x ys xs hl) = hl"
  "(r0 (ROI bb w h y x ys xs hl), r1 (ROI bb w h y x ys xs hl),
    c0 (ROI bb w h y x ys xs hl), c1 (ROI bb w h y x ys xs hl)) = bb w h y x ys xs"
  by (simp_all add: ROI_def split: prod.splits)

lemma scan_roi_InrE:
  assumes "scan_roi D pipe frame i roi st = Inr (res, st')"
  obtains b1 b2 e1 e2 where
    "i < length (binary (buf st))"
    "assign_region (binary (buf st) ! i) (height (buf st)) (width (buf st))
       (r0 roi) (r1 roi) (c0 roi) (c1 roi)
       (binarize pipe (subregion frame (height (buf st)) (width (buf st))
                         (r0 roi) (r1 roi) (c0 roi) (c1 roi))) = Inr b1"
    "draw_roi D (height (buf st)) (width (buf st)) roi 255 (scale D 255 (health roi)) b1 = Inr b2"
    "i < length (edges (buf st))"
    "assign_region (edges (buf st) ! i) (height (buf st)) (width (buf st))
       (r0 roi) (r1 roi) (c0 roi) (c1 roi)
       (edge pipe (subregion b2 (height (buf st)) (width (buf st))
                     (r0 roi) (r1 roi) (c0 roi) (c1 roi))) = Inr e1"
    "draw_roi D (height (buf st)) (width (buf st)) roi 255 (scale D 255 (health roi)) e1 = Inr e2"
    "buf st' = (buf st)\<lparr>binary := (binary (buf st))[i := b2], edges := (edges (buf st))[i := e2]\<rparr>"
    "trace st' = trace st @
       [Roi_scan i roi,
        Binarize (subregion frame (height (buf st)) (width (buf st))
                    (r0 roi) (r1 roi) (c0 roi) (c1 roi)),
        Edge (subregion b2 (height (buf st)) (width (buf st)) (r0 roi) (r1 roi) (c0 roi) (c1 roi)),
        Detect (subregion e2 (height (buf st)) (width (buf st)) (r0 roi) (r1 roi) (c0 roi) (c1 roi))
               (subregion b2 (height (buf st)) (width (buf st)) (r0 roi) (r1 roi) (c0 roi) (c1 roi))]"
    "res = detect pipe
             (subregion e2 (height (buf st)) (width (buf st)) (r0 roi) (r1 roi) (c0 roi) (c1 roi))
             (subregion b2 (height (buf st)) (width (buf st)) (r0 roi) (r1 roi) (c0 roi) (c1 roi))"
proof -
  let ?H = "height (buf st)" and ?W = "width (buf st)"
  let ?part = "subregion frame ?H ?W (r0 roi) (r1 roi) (c0 roi) (c1 roi)"
  have lb: "i < length (binary (buf st))"
    using assms by (simp add: scan_roi_def Let_def get_frame_def split: if_splits)
  from assms lb obtain b1 where
    b1: "assign_region (binary (buf st) ! i) ?H ?W (r0 roi) (r1 roi) (c0 roi) (c1 roi)
           (binarize pipe ?part) = Inr b1"
    by (cases "assign_region (binary (buf st) ! i) ?H ?W (r0 roi) (r1 roi) (c0 roi) (c1 roi)
           (binarize pipe ?part)") (simp_all add: scan_roi_def Let_def get_frame_def)
  from assms lb b1 obtain b2 where
    b2: "draw_roi D ?H ?W roi 255 (scale D 255 (health roi)) b1 = Inr b2"
    by (cases "draw_roi D ?H ?W roi 255 (scale D 255 (health roi)) b1")
       (simp_all add: scan_roi_def Let_def get_frame_def)
  let ?bpart = "subregion b2 ?H ?W (r0 roi) (r1 roi) (c0 roi) (c1 roi)"
  have le: "i < length (edges (buf st))"
    using assms lb b1 b2 by (simp add: scan_roi_def Let_def get_frame_def split: if_splits)
  from assms lb b1 b2 le obtain e1 where
    e1: "assign_region (edges (buf st) ! i) ?H ?W (r0 roi) (r1 roi) (c0 roi) (c1 roi)
           (edge pipe ?bpart) = Inr e1"
    by (cases "assign_region (edges (buf st) ! i) ?H ?W (r0 roi) (r1 roi) (c0 roi) (c1 roi)
           (edge pipe ?bpart)") (simp_all add: scan_roi_def Let_def get_frame_def)
  from assms lb b1 b2 le e1 obtain e2 where
    e2: "draw_roi D ?H ?W roi 255 (scale D 255 (health roi)) e1 = Inr e2"
    by (cases "draw_roi D ?H ?W roi 255 (scale D 255 (health roi)) e1")
       (simp_all add: scan_roi_def Let_def get_frame_def)
  from assms lb b1 b2 le e1 e2 have
    r: "res = detect pipe (subregion e2 ?H ?W (r0 roi) (r1 roi) (c0 roi) (c1 roi)) ?bpart"
    and s: "st' = log (Detect (subregion e2 ?H ?W (r0 roi) (r1 roi) (c0 roi) (c1 roi)) ?bpart)
                 (set_edges ((edges (buf st))[i := e2])
                   (log (Edge ?bpart)
                     (set_binary ((binary (buf st))[i := b2])
                       (log (Binarize ?part) (log (Roi_scan i roi) st)))))"
    by (simp_all add: scan_roi_def Let_def get_frame_def)
  show ?thesis
    by (rule that[OF lb b1 b2 le e1 e2 _ _ r]) (simp_all add: s)
qed


lemma scan_roi_result:
  assumes "scan_roi D pipe frame i roi st = Inr (res, st')"
  shows "res = detect pipe
                 (subregion (edges (buf st') ! i) (height (buf st)) (width (buf st))
                    (r0 roi) (r1 roi) (c0 roi) (c1 roi))
                 (subregion (binary (buf st') ! i) (height (buf st)) (width (buf st))
                    (r0 roi) (r1 roi) (c0 roi) (c1 roi))"
    and "height (buf st') = height (buf st)" and "width (buf st') = width (buf st)"
    and "original (buf st') = original (buf st)"
  using assms by (auto elim!: scan_roi_InrE)

section \<open>The merge engine\<close>

text \<open>
  Claim C2. When the restricted scan of a region returns at least one detection, only the
  first one is used: its three vertices are looked up, moved into frame coordinates by
  adding the \<open>r0\<close> and \<open>c0\<close> of the scanned region, and a replacement region with health
  \<open>ROI_LIFESPAN\<close> is built; the replacement is appended to the list of new regions exactly
  when it intersects none of the regions already in that list, and is dropped otherwise.
\<close>

theorem roi_step_reconfirmed:
  assumes "scan_roi D pipe frame i roi st = Inr ((b # bs, ps), st1)"
      and "roi_step D pipe frame i roi (new_rois, st) = Inr (nr, st')"
  shows "\<exists>ya yb yc xa xb xc new_roi.
           get_vertices (fst b) ps = Inr ((ya, yb, yc), (xa, xb, xc))
         \<and> new_roi = ROI (bbox D) (int (height (buf st))) (int (width (buf st)))
                       (fst (snd b)) (snd (snd b))
                       (r0 roi + ya, r0 roi + yb, r0 roi + yc)
                       (c0 roi + xa, c0 roi + xb, c0 roi + xc) ROI_LIFESPAN
         \<and> health new_roi = ROI_LIFESPAN
         \<and> nr = (if list_ex (intersects new_roi) new_rois then new_rois else new_rois @ [new_roi])
         \<and> st' = st1"
proof -
  have eq: "roi_step D pipe frame i roi (new_rois, st) =
          (case merge_rois D (int (height (buf st1))) (int (width (buf st1))) roi b ps new_rois of
             Inl e \<Rightarrow> Inl e | Inr nr \<Rightarrow> Inr (nr, st1))"
    by (simp add: roi_step_def assms(1))
  with assms(2) have
    m: "merge_rois D (int (height (buf st1))) (int (width (buf st1))) roi b ps new_rois = Inr nr"
    and s: "st' = st1"
    by (simp_all split: sum.splits)
  from m obtain v where v: "get_vertices (fst b) ps = Inr v"
    by (cases "get_vertices (fst b) ps") (simp_all add: merge_rois_def)
  obtain ya yb yc xa xb xc where vv: "v = ((ya, yb, yc), (xa, xb, xc))"
    by (metis prod_cases3 surj_pair)
  have hw: "height (buf st1) = height (buf st)" "width (buf st1) = width (buf st)"
    using scan_roi_result(2,3)[OF assms(1)] by simp_all
  from m have "nr = (let new_roi = ROI (bbox D) (int (height (buf st))) (int (width (buf st)))
                       (fst (snd b)) (snd (snd b))
                       (r0 roi + ya, r0 roi + yb, r0 roi + yc)
                       (c0 roi + xa, c0 roi + xb, c0 roi + xc) ROI_LIFESPAN
                     in if list_ex (intersects new_roi) new_rois then new_rois
                        else new_rois @ [new_roi])"
    by (simp add: merge_rois_def v vv hw shift3_def Let_def split: if_splits)
  then show ?thesis
    using v vv s by (simp add: Let_def)
qed

theorem roi_step_reconfirmed_witness:
  "\<exists>b bs ps st1 nr st' ya yb yc xa xb xc.
      scan_roi D0 P0 (spot_frame 4 4) 0 roi0 (start_state [spot_frame 4 4] 6 6)
        = Inr ((b # bs, ps), st1)
    \<and> roi_step D0 P0 (spot_frame 4 4) 0 roi0 ([], start_state [spot_frame 4 4] 6 6) = Inr (nr, st')
    \<and> get_vertices (fst b) ps = Inr ((ya, yb, yc), (xa, xb, xc))
    \<and> nr = [ROI (bbox D0) 6 6 (fst (snd b)) (snd (snd b))
               (r0 roi0 + ya, r0 roi0 + yb, r0 roi0 + yc)
               (c0 roi0 + xa, c0 roi0 + xb, c0 roi0 + xc) ROI_LIFESPAN]"
proof -
  let ?st = "start_state [spot_frame 4 4] 6 6"
  have "case scan_roi D0 P0 (spot_frame 4 4) 0 roi0 ?st of
          Inl e \<Rightarrow> False | Inr res \<Rightarrow> fst (fst res) \<noteq> []"
    by code_simp
  then obtain b bs ps st1 where
    h1: "scan_roi D0 P0 (spot_frame 4 4) 0 roi0 ?st = Inr ((b # bs, ps), st1)"
    by (auto split: sum.splits simp: neq_Nil_conv)
  have "\<not> isl (roi_step D0 P0 (spot_frame 4 4) 0 roi0 ([], ?st))"
    by code_simp
  then obtain nr st' where
    h2: "roi_step D0 P0 (spot_frame 4 4) 0 roi0 ([], ?st) = Inr (nr, st')"
    by (cases "roi_step D0 P0 (spot_frame 4 4) 0 roi0 ([], ?st)") auto
  have hw: "height (buf ?st) = 6" "width (buf ?st) = 6"
    by (simp_all add: start_state_def Buffer_def)
  from roi_step_reconfirmed[OF h1 h2] h1 h2 show ?thesis
    unfolding hw by auto
qed

text \<open>The branch of the loop body for a restricted scan that returned no detection.\<close>

lemma roi_step_miss:
  assumes "scan_roi D pipe frame i roi st = Inr (([], ps), st1)"
  shows "roi_step D pipe frame i roi (new_rois, st) =
           Inr (if health roi \<noteq> 0 then new_rois @ [roi\<lparr>health := health roi - 1\<rparr>] else new_rois,
                st1)"
  using assms by (simp add: roi_step_def dead_def punish_def)

lemma roi_step_detection:
  assumes "scan_roi D pipe frame i roi st = Inr ((b # bs, ps), st1)"
  shows "roi_step D pipe frame i roi (new_rois, st) =
          (case merge_rois D (int (height (buf st))) (int (width (buf st))) roi b ps new_rois of
             Inl e \<Rightarrow> Inl e | Inr nr \<Rightarrow> Inr (nr, st1))"
  using scan_roi_result(2,3)[OF assms] by (simp add: roi_step_def assms)

lemma merge_rois_InrE:
  assumes "merge_rois D w h roi b ps new_rois = Inr nr"
  obtains ya yb yc xa xb xc where
    "get_vertices (fst b) ps = Inr ((ya, yb, yc), (xa, xb, xc))"
    "nr = (if list_ex (intersects (ROI (bbox D) w h (fst (snd b)) (snd (snd b))
                                     (r0 roi + ya, r0 roi + yb, r0 roi + yc)
                                     (c0 roi + xa, c0 roi + xb, c0 roi + xc) ROI_LIFESPAN))
                 new_rois
           then new_rois
           else new_rois @ [ROI (bbox D) w h (fst (snd b)) (snd (snd b))
                              (r0 roi + ya, r0 roi + yb, r0 roi + yc)
                              (c0 roi + xa, c0 roi + xb, c0 roi + xc) ROI_LIFESPAN])"
proof -
  from assms obtain v where v: "get_vertices (fst b) ps = Inr v"
    by (cases "get_vertices (fst b) ps") (simp_all add: merge_rois_def)
  obtain ya yb yc xa xb xc where vv: "v = ((ya, yb, yc), (xa, xb, xc))"
    by (metis prod_cases3 surj_pair)
  show ?thesis
    using assms by (intro that[of ya yb yc xa xb xc])
      (simp_all add: merge_rois_def v vv shift3_def Let_def split: if_splits)
qed

text \<open>
  Claim C6. The replacement region that \<open>merge_rois\<close> builds from a detection of a restricted
  scan takes the barycenter as \<open>detect\<close> reported it on the arrays of the sub-region,
  untranslated, while its vertices are the reported vertices with \<open>r0\<close> and \<open>c0\<close> of the
  scanned region added. Relative to the stored barycenter the stored vertices are therefore
  displaced by exactly \<open>(r0, c0)\<close> against the reported geometry, and the bounding box is
  computed from that barycenter and those vertices.
\<close>

theorem replacement_coordinates:
  assumes "scan_roi D pipe frame i roi st = Inr (((keys, (y, x)) # bs, ps), st1)"
      and "roi_step D pipe frame i roi ([], st) = Inr (nr, st')"
  shows "\<exists>ya yb yc xa xb xc new_roi.
           ((keys, (y, x)) # bs, ps) =
             detect pipe
               (subregion (edges (buf st1) ! i) (height (buf st)) (width (buf st))
                  (r0 roi) (r1 roi) (c0 roi) (c1 roi))
               (subregion (binary (buf st1) ! i) (height (buf st)) (width (buf st))
                  (r0 roi) (r1 roi) (c0 roi) (c1 roi))
         \<and> get_vertices keys ps = Inr ((ya, yb, yc), (xa, xb, xc))
         \<and> nr = [new_roi]
         \<and> bary_y new_roi = y \<and> bary_x new_roi = x
         \<and> vy new_roi = (r0 roi + ya, r0 roi + yb, r0 roi + yc)
         \<and> vx new_roi = (c0 roi + xa, c0 roi + xb, c0 roi + xc)
         \<and> (r0 roi + ya - bary_y new_roi, r0 roi + yb - bary_y new_roi,
             r0 roi + yc - bary_y new_roi)
             = ((ya - y) + r0 roi, (yb - y) + r0 roi, (yc - y) + r0 roi)
         \<and> (c0 roi + xa - bary_x new_roi, c0 roi + xb - bary_x new_roi,
             c0 roi + xc - bary_x new_roi)
             = ((xa - x) + c0 roi, (xb - x) + c0 roi, (xc - x) + c0 roi)
         \<and> (r0 new_roi, r1 new_roi, c0 new_roi, c1 new_roi) =
             bbox D (int (height (buf st))) (int (width (buf st))) y x (vy new_roi) (vx new_roi)"
proof -
  from assms(2) roi_step_detection[OF assms(1), of "[]"] have
    m: "merge_rois D (int (height (buf st))) (int (width (buf st))) roi (keys, (y, x)) ps [] = Inr nr"
    by (simp split: sum.splits)
  from m obtain ya yb yc xa xb xc where
    v: "get_vertices keys ps = Inr ((ya, yb, yc), (xa, xb, xc))"
    and n: "nr = [ROI (bbox D) (int (height (buf st))) (int (width (buf st))) y x
                    (r0 roi + ya, r0 roi + yb, r0 roi + yc)
                    (c0 roi + xa, c0 roi + xb, c0 roi + xc) ROI_LIFESPAN]"
    by (auto elim!: merge_rois_InrE)
  from scan_roi_result(1)[OF assms(1)] v n show ?thesis
    by simp
qed

theorem replacement_coordinates_witness:
  "\<exists>bs ps st1 new_roi st'.
      scan_roi D0 P0 (spot_frame 4 4) 0 roi0 (start_state [spot_frame 4 4] 6 6)
        = Inr ((((0, 1, 2), (3, 3)) # bs, ps), st1)
    \<and> roi_step D0 P0 (spot_frame 4 4) 0 roi0 ([], start_state [spot_frame 4 4] 6 6)
        = Inr ([new_roi], st')
    \<and> get_vertices (0, 1, 2) ps = Inr ((2, 4, 4), (3, 2, 4))
    \<and> r0 roi0 = 1 \<and> c0 roi0 = 1
    \<and> bary_y new_roi = 3 \<and> bary_x new_roi = 3
    \<and> vy new_roi = (3, 5, 5) \<and> vx new_roi = (4, 3, 5)"
proof -
  let ?st = "start_state [spot_frame 4 4] 6 6"
  have "case scan_roi D0 P0 (spot_frame 4 4) 0 roi0 ?st of
          Inl e \<Rightarrow> False
        | Inr res \<Rightarrow> fst (fst res) = [((0, 1, 2), (3, 3))]
                     \<and> get_vertices (0, 1, 2) (snd (fst res)) = Inr ((2, 4, 4), (3, 2, 4))"
    by code_simp
  then obtain ps st1 where
    h1: "scan_roi D0 P0 (spot_frame 4 4) 0 roi0 ?st = Inr ((((0, 1, 2), (3, 3)) # [], ps), st1)"
    and g: "get_vertices (0, 1, 2) ps = Inr ((2, 4, 4), (3, 2, 4))"
    by (auto split: sum.splits)
  have "\<not> isl (roi_step D0 P0 (spot_frame 4 4) 0 roi0 ([], ?st))"
    by code_simp
  then obtain nr st' where
    h2: "roi_step D0 P0 (spot_frame 4 4) 0 roi0 ([], ?st) = Inr (nr, st')"
    by (cases "roi_step D0 P0 (spot_frame 4 4) 0 roi0 ([], ?st)") auto
  have b: "r0 roi0 = 1" "c0 roi0 = 1"
    by (simp_all add: roi0_def ROI_def margin_box_def)
  from replacement_coordinates[OF h1 h2] obtain ya yb yc xa xb xc new_roi where
    gv: "get_vertices (0, 1, 2) ps = Inr ((ya, yb, yc), (xa, xb, xc))"
    and nr: "nr = [new_roi]"
    and bc: "bary_y new_roi = 3" "bary_x new_roi = 3"
    and vv: "vy new_roi = (r0 roi0 + ya, r0 roi0 + yb, r0 roi0 + yc)"
            "vx new_roi = (c0 roi0 + xa, c0 roi0 + xb, c0 roi0 + xc)"
    by blast
  from gv g have ys: "ya = 2" "yb = 4" "yc = 4" "xa = 3" "xb = 2" "xc = 4"
    by simp_all
  from h1 h2 g b bc vv ys nr show ?thesis
    by (intro exI[of _ "[]"] exI[of _ ps] exI[of _ st1] exI[of _ new_roi] exI[of _ st']) simp
qed

section \<open>Full scans and the list of new regions\<close>

lemma find_step_Inr:
  assumes "find_step D B ps det acc = Inr rs"
  shows "\<exists>r. rs = acc @ [r] \<and> is_roi_of D (int (height B)) (int (width B)) ps det r"
  using assms
  by (cases "get_vertices (fst det) ps") (auto simp: find_step_def is_roi_of_def)

lemma find_loop:
  "foldE (find_step D B ps) dets acc = Inr rs
     \<Longrightarrow> \<exists>full. rs = acc @ full
            \<and> list_all2 (is_roi_of D (int (height B)) (int (width B)) ps) dets full"
proof (induction dets arbitrary: acc)
  case Nil
  then show ?case by simp
next
  case (Cons det dets)
  from Cons.prems obtain acc1 where
    s: "find_step D B ps det acc = Inr acc1"
    and l: "foldE (find_step D B ps) dets acc1 = Inr rs"
    by (auto split: sum.splits)
  from find_step_Inr[OF s] obtain r where
    r: "acc1 = acc @ [r]" "is_roi_of D (int (height B)) (int (width B)) ps det r"
    by blast
  from Cons.IH[OF l] obtain full where
    f: "rs = acc1 @ full" "list_all2 (is_roi_of D (int (height B)) (int (width B)) ps) dets full"
    by blast
  from r f show ?case
    by (intro exI[of _ "r # full"]) simp
qed

lemma find_rois_all:
  assumes "find_rois D B dets ps = Inr rs"
  shows "list_all2 (is_roi_of D (int (height B)) (int (width B)) ps) dets rs"
  using find_loop[of D B ps dets "[]" rs] assms by (auto simp: find_rois_def)

lemma scan_full_rois:
  assumes "scan_full D pipe frame i st = Inr (rs, st')"
    and "\<not> pbinary pipe" and "\<not> pedges pipe"
  shows "find_rois D (buf st')
           (fst (detect pipe (edge pipe (binarize pipe frame)) (binarize pipe frame)))
           (snd (detect pipe (edge pipe (binarize pipe frame)) (binarize pipe frame))) = Inr rs"
    and "height (buf st') = height (buf st)" and "width (buf st') = width (buf st)"
  using assms
  by (auto simp: scan_full_def Let_def set_frame_def split: sum.splits if_splits)

lemma roi_step_cases:
  assumes "roi_step D pipe frame i roi (nr, st) = Inr (nr', st')"
  shows "nr' = nr
       \<or> (\<exists>new_roi. health new_roi = ROI_LIFESPAN \<and> nr' = nr @ [new_roi])
       \<or> (health roi \<noteq> 0 \<and> nr' = nr @ [roi\<lparr>health := health roi - 1\<rparr>])"
proof (cases "scan_roi D pipe frame i roi st")
  case (Inl e)
  with assms show ?thesis by (simp add: roi_step_def)
next
  case (Inr res)
  obtain dets ps st1 where res: "res = ((dets, ps), st1)"
    by (metis surj_pair)
  show ?thesis
  proof (cases dets)
    case Nil
    with assms Inr res show ?thesis
      by (auto simp: roi_step_def dead_def punish_def split: if_splits)
  next
    case (Cons b bs)
    from assms roi_step_detection[OF Inr[unfolded res Cons], of nr] have
      "merge_rois D (int (height (buf st))) (int (width (buf st))) roi b ps nr = Inr nr'"
      by (simp split: sum.splits)
    then show ?thesis
      by (elim merge_rois_InrE) (auto split: if_splits)
  qed
qed

lemma roi_loop_cases:
  "foldE (roi_step D pipe frame i) rois (nr, st) = Inr (nr', st')
     \<Longrightarrow> \<exists>more. nr' = nr @ more
          \<and> (\<forall>r'\<in>set more. health r' = ROI_LIFESPAN
                \<or> (\<exists>r\<in>set rois. health r \<noteq> 0 \<and> r' = r\<lparr>health := health r - 1\<rparr>))"
proof (induction rois arbitrary: nr st)
  case Nil
  then show ?case by simp
next
  case (Cons r rois)
  from Cons.prems obtain nr1 st1 where
    s: "roi_step D pipe frame i r (nr, st) = Inr (nr1, st1)"
    and l: "foldE (roi_step D pipe frame i) rois (nr1, st1) = Inr (nr', st')"
    by (auto split: sum.splits)
  from Cons.IH[OF l] obtain more where
    m: "nr' = nr1 @ more"
       "\<forall>r'\<in>set more. health r' = ROI_LIFESPAN
           \<or> (\<exists>r\<in>set rois. health r \<noteq> 0 \<and> r' = r\<lparr>health := health r - 1\<rparr>)"
    by blast
  from roi_step_cases[OF s] consider
      "nr1 = nr"
    | new_roi where "health new_roi = ROI_LIFESPAN" "nr1 = nr @ [new_roi]"
    | "health r \<noteq> 0" "nr1 = nr @ [r\<lparr>health := health r - 1\<rparr>]"
    by blast
  then show ?case
  proof cases
    case 1
    with m show ?thesis by (intro exI[of _ more]) auto
  next
    case 2
    with m show ?thesis by (intro exI[of _ "new_roi # more"]) auto
  next
    case 3
    with m show ?thesis by (intro exI[of _ "r\<lparr>health := health r - 1\<rparr> # more"]) auto
  qed
qed

lemma process_frame_InrE:
  assumes "process_frame D pipe frame i rois st = Inr (new_rois, st')"
  obtains rs0 st0 st1 where
    "(if i mod 15 = 0 \<or> rois = [] then scan_full D pipe frame i st else Inr ([], st))
       = Inr (rs0, st0)"
    "foldE (roi_step D pipe frame i) rois (rs0, st0) = Inr (new_rois, st1)"
    "trace st' = trace st1"
proof -
  from assms obtain acc0 where
    f: "(if i mod 15 = 0 \<or> rois = [] then scan_full D pipe frame i st else Inr ([], st))
          = Inr acc0"
    by (cases "if i mod 15 = 0 \<or> rois = [] then scan_full D pipe frame i st else Inr ([], st)")
       (simp_all add: process_frame_def Let_def)
  obtain rs0 st0 where a: "acc0 = (rs0, st0)" by (cases acc0)
  from assms f a obtain acc1 where
    l: "foldE (roi_step D pipe frame i) rois (rs0, st0) = Inr acc1"
    by (cases "foldE (roi_step D pipe frame i) rois (rs0, st0)")
       (simp_all add: process_frame_def Let_def)
  obtain nr1 st1 where b: "acc1 = (nr1, st1)" by (cases acc1)
  from assms f a l b have "new_rois = nr1" "trace st' = trace st1"
    by (auto simp: process_frame_def Let_def split: sum.splits)
  with f a l b that show ?thesis by blast
qed

text \<open>
  Claim C3, as the code has it. On a frame on which the full scan runs (and the pipeline is
  in neither short-circuit mode), every detection of the full scan yields a region, and
  these regions are the first entries of the frame's list of new regions, one for each
  detection and in the order of the detections. No detection is filtered out: neither
  against another detection of the same full scan nor against a region that the restricted
  scans carry forward in the same frame.
\<close>

theorem full_scan_keeps_all:
  assumes "i mod 15 = 0 \<or> rois = []" and "\<not> pbinary pipe" and "\<not> pedges pipe"
    and "process_frame D pipe frame i rois st = Inr (new_rois, st')"
  shows "list_all2
           (is_roi_of D (int (height (buf st))) (int (width (buf st)))
              (snd (detect pipe (edge pipe (binarize pipe frame)) (binarize pipe frame))))
           (fst (detect pipe (edge pipe (binarize pipe frame)) (binarize pipe frame)))
           (take (length (fst (detect pipe (edge pipe (binarize pipe frame))
                                 (binarize pipe frame))))
              new_rois)"
proof -
  let ?found = "detect pipe (edge pipe (binarize pipe frame)) (binarize pipe frame)"
  from assms(4) obtain rs0 st0 st1 where
    f: "(if i mod 15 = 0 \<or> rois = [] then scan_full D pipe frame i st else Inr ([], st))
          = Inr (rs0, st0)"
    and l: "foldE (roi_step D pipe frame i) rois (rs0, st0) = Inr (new_rois, st1)"
    by (rule process_frame_InrE)
  from f assms(1) have sf: "scan_full D pipe frame i st = Inr (rs0, st0)"
    by (simp split: if_splits)
  from scan_full_rois[OF sf assms(2,3)] find_rois_all[of D "buf st0" "fst ?found" "snd ?found" rs0]
  have a: "list_all2 (is_roi_of D (int (height (buf st))) (int (width (buf st))) (snd ?found))
             (fst ?found) rs0"
    by simp
  from roi_loop_cases[OF l] obtain more where "new_rois = rs0 @ more"
    by blast
  with a list_all2_lengthD[OF a] show ?thesis
    by simp
qed

text \<open>
  The claim C3 as stated says that of two full-scan detections with overlapping bounding
  boxes only the first is retained. \<open>find_rois\<close> appends every detection: here both regions
  are in the frame's list although their boxes intersect.
\<close>

theorem full_scan_overlap_counterexample:
  "(\<exists>st'. process_frame D0 P2 black_frame 0 [] (start_state [black_frame] 6 6)
            = Inr ([roi0, roi1], st'))
   \<and> intersects roi0 roi1"
proof -
  have "map_sum id fst (process_frame D0 P2 black_frame 0 [] (start_state [black_frame] 6 6))
          = Inr [roi0, roi1]"
    by code_simp
  moreover have "intersects roi0 roi1"
    by code_simp
  ultimately show ?thesis
    by (cases "process_frame D0 P2 black_frame 0 [] (start_state [black_frame] 6 6)") auto
qed

theorem full_scan_keeps_all_witness:
  "\<exists>new_rois st'.
      process_frame D0 P2 black_frame 0 [] (start_state [black_frame] 6 6) = Inr (new_rois, st')
    \<and> list_all2 (is_roi_of D0 6 6 (triangle (3, 3))) [((0, 1, 2), (3, 3)), ((0, 1, 2), (3, 2))]
        (take 2 new_rois)"
proof -
  let ?st = "start_state [black_frame] 6 6"
  have "\<not> isl (process_frame D0 P2 black_frame 0 [] ?st)"
    by code_simp
  then obtain new_rois st' where
    h: "process_frame D0 P2 black_frame 0 [] ?st = Inr (new_rois, st')"
    by (cases "process_frame D0 P2 black_frame 0 [] ?st") auto
  have m: "\<not> pbinary P2" "\<not> pedges P2"
    by (simp_all add: P2_def P0_def)
  have d: "detect P2 (edge P2 (binarize P2 black_frame)) (binarize P2 black_frame)
             = ([((0, 1, 2), (3, 3)), ((0, 1, 2), (3, 2))], triangle (3, 3))"
    by (simp add: P2_def)
  have hw: "height (buf ?st) = 6" "width (buf ?st) = 6"
    by (simp_all add: start_state_def Buffer_def)
  from full_scan_keeps_all[OF _ m h] h show ?thesis
    unfolding d hw by (auto simp: numeral_2_eq_2)
qed

section \<open>Regions that are not confirmed\<close>

lemma roi_step_InrE:
  assumes "roi_step D pipe frame i roi (nr, s) = Inr (nr', s')"
  obtains dets ps p m e b where
    "scan_roi D pipe frame i roi s = Inr ((dets, ps), s')"
    "detect pipe e b = (dets, ps)"
    "trace s' = trace s @ [Roi_scan i roi, Binarize p, Edge m, Detect e b]"
proof (cases "scan_roi D pipe frame i roi s")
  case (Inl e)
  with assms show ?thesis by (simp add: roi_step_def)
next
  case (Inr res)
  obtain dets ps s1 where res: "res = ((dets, ps), s1)"
    by (metis surj_pair)
  have s1: "s1 = s'"
  proof (cases dets)
    case Nil
    with assms Inr res show ?thesis
      by (auto simp: roi_step_def split: if_splits)
  next
    case (Cons b bs)
    from assms roi_step_detection[OF Inr[unfolded res Cons], of nr] show ?thesis
      by (simp split: sum.splits)
  qed
  from Inr res s1 have sc: "scan_roi D pipe frame i roi s = Inr ((dets, ps), s')" by simp
  from sc show ?thesis
    apply (rule scan_roi_InrE)
    apply (rule that[OF sc])
     apply (rule sym, assumption)
    apply assumption
    done
qed









section \<open>Health\<close>

lemma is_roi_of_health: "is_roi_of D w h ps det r \<Longrightarrow> health r = ROI_LIFESPAN"
  by (metis is_roi_of_def ROI_sel(7))

lemma list_all2_health:
  "list_all2 (is_roi_of D w h ps) dets rs \<Longrightarrow> \<forall>r\<in>set rs. health r = ROI_LIFESPAN"
  by (induction rule: list_all2_induct) (auto dest: is_roi_of_health)

lemma scan_full_health:
  assumes "scan_full D pipe frame i st = Inr (rs, st')"
  shows "\<forall>r\<in>set rs. health r = ROI_LIFESPAN"
proof (cases "pbinary pipe \<or> pedges pipe")
  case True
  with assms have "rs = []"
    by (auto simp: scan_full_def Let_def split: sum.splits if_splits)
  then show ?thesis by simp
next
  case False
  then have m: "\<not> pbinary pipe" "\<not> pedges pipe" by simp_all
  from find_rois_all[OF scan_full_rois(1)[OF assms m]] show ?thesis
    by (rule list_all2_health)
qed

lemma process_frame_health:
  assumes "process_frame D pipe frame i rois st = Inr (new_rois, st')"
  shows "\<forall>r'\<in>set new_rois. health r' = ROI_LIFESPAN
           \<or> (\<exists>r\<in>set rois. health r \<noteq> 0 \<and> r' = r\<lparr>health := health r - 1\<rparr>)"
proof -
  from assms obtain rs0 st0 st1 where
    f: "(if i mod 15 = 0 \<or> rois = [] then scan_full D pipe frame i st else Inr ([], st))
          = Inr (rs0, st0)"
    and l: "foldE (roi_step D pipe frame i) rois (rs0, st0) = Inr (new_rois, st1)"
    by (rule process_frame_InrE)
  from f have a: "\<forall>r\<in>set rs0. health r = ROI_LIFESPAN"
    by (auto split: if_splits dest: scan_full_health)
  from roi_loop_cases[OF l] obtain more where
    "new_rois = rs0 @ more"
    "\<forall>r'\<in>set more. health r' = ROI_LIFESPAN
        \<or> (\<exists>r\<in>set rois. health r \<noteq> 0 \<and> r' = r\<lparr>health := health r - 1\<rparr>)"
    by blast
  with a show ?thesis by auto
qed

lemma process_frame_range:
  assumes "process_frame D pipe frame i rois st = Inr (new_rois, st')"
    and "\<forall>r\<in>set rois. 0 \<le> health r \<and> health r \<le> ROI_LIFESPAN"
  shows "\<forall>r'\<in>set new_rois. 0 \<le> health r' \<and> health r' \<le> ROI_LIFESPAN"
proof
  fix r' assume "r' \<in> set new_rois"
  with process_frame_health[OF assms(1)] consider
      "health r' = ROI_LIFESPAN"
    | r where "r \<in> set rois" "health r \<noteq> 0" "r' = r\<lparr>health := health r - 1\<rparr>"
    by blast
  then show "0 \<le> health r' \<and> health r' \<le> ROI_LIFESPAN"
  proof cases
    case 1
    then show ?thesis by (simp add: ROI_LIFESPAN_def)
  next
    case 2
    with assms(2) have "0 \<le> health r" "health r \<le> ROI_LIFESPAN" by auto
    with 2 show ?thesis by simp
  qed
qed

lemma run_frames_range:
  "run_frames D pipe ixs (rois, st) = Inr (rois', st')
     \<Longrightarrow> \<forall>r\<in>set rois. 0 \<le> health r \<and> health r \<le> ROI_LIFESPAN
     \<Longrightarrow> \<forall>r\<in>set rois'. 0 \<le> health r \<and> health r \<le> ROI_LIFESPAN"
proof (induction ixs arbitrary: rois st)
  case Nil
  then show ?case by (simp add: run_frames_def)
next
  case (Cons i ixs)
  from Cons.prems(1) obtain rois1 st1 where
    s: "frame_step D pipe i (rois, st) = Inr (rois1, st1)"
    and l: "run_frames D pipe ixs (rois1, st1) = Inr (rois', st')"
    by (auto simp: run_frames_def split: sum.splits)
  from s have "process_frame D pipe (original (buf st) ! i) i rois st = Inr (rois1, st1)"
    by (simp add: frame_step_def split: if_splits)
  from process_frame_range[OF this Cons.prems(2)] Cons.IH[OF l] show ?case
    by blast
qed

text \<open>
  The loop over the regions carried in, split at one of them: the list accumulated when its
  turn comes, its restricted scan, and the list after its turn, which stays a prefix of the
  list of the frame.
\<close>

lemma roi_loop_split:
  assumes "foldE (roi_step D pipe frame i) (xs @ roi # ys) acc0 = Inr (rois', s3)"
  obtains pre s1 dets ps s2 mid where
    "foldE (roi_step D pipe frame i) xs acc0 = Inr (pre, s1)"
    "scan_roi D pipe frame i roi s1 = Inr ((dets, ps), s2)"
    "roi_step D pipe frame i roi (pre, s1) = Inr (mid, s2)"
    "foldE (roi_step D pipe frame i) ys (mid, s2) = Inr (rois', s3)"
    "take (length mid) rois' = mid"
proof -
  from assms obtain a1 where
    x: "foldE (roi_step D pipe frame i) xs acc0 = Inr a1"
    and r: "foldE (roi_step D pipe frame i) (roi # ys) a1 = Inr (rois', s3)"
    by (cases "foldE (roi_step D pipe frame i) xs acc0") (simp_all add: foldE_append)
  obtain pre s1 where a1: "a1 = (pre, s1)" by (cases a1)
  from r[unfolded a1] obtain a2 where
    s: "roi_step D pipe frame i roi (pre, s1) = Inr a2"
    and y: "foldE (roi_step D pipe frame i) ys a2 = Inr (rois', s3)"
    by (rule foldE_Cons_Inr)
  obtain mid s2 where a2: "a2 = (mid, s2)" by (cases a2)
  from s[unfolded a2] obtain dets ps where
    sc: "scan_roi D pipe frame i roi s1 = Inr ((dets, ps), s2)"
    by (rule roi_step_InrE)
  from roi_loop_cases[OF y[unfolded a2]] have t: "take (length mid) rois' = mid"
    by auto
  show ?thesis
    by (rule that[OF x[unfolded a1] sc s[unfolded a2] y[unfolded a2] t])
qed

lemma roi_step_hit:
  assumes "scan_roi D pipe frame i roi s1 = Inr ((b # bs, ps), s2)"
    and "roi_step D pipe frame i roi (pre, s1) = Inr (mid, s2')"
  shows "\<exists>ya yb yc xa xb xc new_roi.
           get_vertices (fst b) ps = Inr ((ya, yb, yc), (xa, xb, xc))
         \<and> new_roi = ROI (bbox D) (int (height (buf s1))) (int (width (buf s1)))
                       (fst (snd b)) (snd (snd b))
                       (r0 roi + ya, r0 roi + yb, r0 roi + yc)
                       (c0 roi + xa, c0 roi + xb, c0 roi + xc) ROI_LIFESPAN
         \<and> health new_roi = ROI_LIFESPAN
         \<and> mid = (if list_ex (intersects new_roi) pre then pre else pre @ [new_roi])"
proof -
  from assms(2) roi_step_detection[OF assms(1), of pre] have
    "merge_rois D (int (height (buf s1))) (int (width (buf s1))) roi b ps pre = Inr mid"
    by (simp split: sum.splits)
  then show ?thesis
    by (elim merge_rois_InrE) simp
qed

text \<open>
  Claim C5. After any number of frames of a run that started with no region, every region
  of the active list has a health between 0 and \<open>ROI_LIFESPAN\<close>, and so has every region of
  the list that processing the next frame yields. Each region of that list was either
  created in the frame, with health \<open>ROI_LIFESPAN\<close>, or carried in with a health other than
  0 and has lost exactly one. Which of the two is decided by the restricted scan of the
  region: the regions of the full scan have health \<open>ROI_LIFESPAN\<close>; a region whose scan
  returns a detection is not carried on but replaced by the region built from the first
  detection, with health \<open>ROI_LIFESPAN\<close>, appended unless it intersects a region already
  accepted; a region whose scan returns no detection is carried on with its health
  decremented by one if it is not dead, and dropped if it is. So health is reset to
  \<open>ROI_LIFESPAN\<close> by a replacement after a successful scan and by nothing else, and only
  falls otherwise.
\<close>

theorem health_invariant:
  assumes "run_frames D pipe ixs ([], st0) = Inr (rois, st)"
    and "process_frame D pipe frame i rois st = Inr (rois', st')"
  shows "(\<forall>r\<in>set rois. 0 \<le> health r \<and> health r \<le> ROI_LIFESPAN)
       \<and> (\<forall>r'\<in>set rois'. health r' = ROI_LIFESPAN
              \<or> (\<exists>r\<in>set rois. health r \<noteq> 0 \<and> r' = r\<lparr>health := health r - 1\<rparr>))
       \<and> (\<forall>r'\<in>set rois'. 0 \<le> health r' \<and> health r' \<le> ROI_LIFESPAN)
       \<and> (\<forall>xs roi ys. rois = xs @ roi # ys \<longrightarrow>
            (\<exists>acc0 pre s1 dets ps s2 mid s3.
                (if i mod 15 = 0 \<or> rois = [] then scan_full D pipe frame i st else Inr ([], st))
                  = Inr acc0
              \<and> (\<forall>r\<in>set (fst acc0). health r = ROI_LIFESPAN)
              \<and> foldE (roi_step D pipe frame i) xs acc0 = Inr (pre, s1)
              \<and> scan_roi D pipe frame i roi s1 = Inr ((dets, ps), s2)
              \<and> foldE (roi_step D pipe frame i) ys (mid, s2) = Inr (rois', s3)
              \<and> take (length mid) rois' = mid
              \<and> (dets = [] \<longrightarrow>
                   mid = (if health roi \<noteq> 0 then pre @ [roi\<lparr>health := health roi - 1\<rparr>] else pre))
              \<and> (\<forall>b bs. dets = b # bs \<longrightarrow>
                   (\<exists>ya yb yc xa xb xc new_roi.
                       get_vertices (fst b) ps = Inr ((ya, yb, yc), (xa, xb, xc))
                     \<and> new_roi = ROI (bbox D) (int (height (buf s1))) (int (width (buf s1)))
                                   (fst (snd b)) (snd (snd b))
                                   (r0 roi + ya, r0 roi + yb, r0 roi + yc)
                                   (c0 roi + xa, c0 roi + xb, c0 roi + xc) ROI_LIFESPAN
                     \<and> health new_roi = ROI_LIFESPAN
                     \<and> mid = (if list_ex (intersects new_roi) pre then pre
                              else pre @ [new_roi])))))"
proof -
  have a: "\<forall>r\<in>set rois. 0 \<le> health r \<and> health r \<le> ROI_LIFESPAN"
    using run_frames_range[OF assms(1)] by simp
  note b = process_frame_health[OF assms(2)]
  note c = process_frame_range[OF assms(2) a]
  have d: "\<exists>acc0 pre s1 dets ps s2 mid s3.
                (if i mod 15 = 0 \<or> rois = [] then scan_full D pipe frame i st else Inr ([], st))
                  = Inr acc0
              \<and> (\<forall>r\<in>set (fst acc0). health r = ROI_LIFESPAN)
              \<and> foldE (roi_step D pipe frame i) xs acc0 = Inr (pre, s1)
              \<and> scan_roi D pipe frame i roi s1 = Inr ((dets, ps), s2)
              \<and> foldE (roi_step D pipe frame i) ys (mid, s2) = Inr (rois', s3)
              \<and> take (length mid) rois' = mid
              \<and> (dets = [] \<longrightarrow>
                   mid = (if health roi \<noteq> 0 then pre @ [roi\<lparr>health := health roi - 1\<rparr>] else pre))
              \<and> (\<forall>b bs. dets = b # bs \<longrightarrow>
                   (\<exists>ya yb yc xa xb xc new_roi.
                       get_vertices (fst b) ps = Inr ((ya, yb, yc), (xa, xb, xc))
                     \<and> new_roi = ROI (bbox D) (int (height (buf s1))) (int (width (buf s1)))
                                   (fst (snd b)) (snd (snd b))
                                   (r0 roi + ya, r0 roi + yb, r0 roi + yc)
                                   (c0 roi + xa, c0 roi + xb, c0 roi + xc) ROI_LIFESPAN
                     \<and> health new_roi = ROI_LIFESPAN
                     \<and> mid = (if list_ex (intersects new_roi) pre then pre
                              else pre @ [new_roi])))"
    if sp: "rois = xs @ roi # ys" for xs roi ys
  proof -
    from assms(2) obtain rs0 s0 s3 where
      f: "(if i mod 15 = 0 \<or> rois = [] then scan_full D pipe frame i st else Inr ([], st))
            = Inr (rs0, s0)"
      and l: "foldE (roi_step D pipe frame i) rois (rs0, s0) = Inr (rois', s3)"
      by (rule process_frame_InrE)
    from f have h0: "\<forall>r\<in>set (fst (rs0, s0)). health r = ROI_LIFESPAN"
      by (auto split: if_splits dest: scan_full_health)
    from l[unfolded sp] obtain pre s1 dets ps s2 mid where
      x: "foldE (roi_step D pipe frame i) xs (rs0, s0) = Inr (pre, s1)"
      and sc: "scan_roi D pipe frame i roi s1 = Inr ((dets, ps), s2)"
      and s: "roi_step D pipe frame i roi (pre, s1) = Inr (mid, s2)"
      and y: "foldE (roi_step D pipe frame i) ys (mid, s2) = Inr (rois', s3)"
      and t: "take (length mid) rois' = mid"
      by (rule roi_loop_split)
    have miss: "dets = [] \<longrightarrow>
                 mid = (if health roi \<noteq> 0 then pre @ [roi\<lparr>health := health roi - 1\<rparr>] else pre)"
    proof
      assume "dets = []"
      from roi_step_miss[OF sc[unfolded this], of pre] s show
        "mid = (if health roi \<noteq> 0 then pre @ [roi\<lparr>health := health roi - 1\<rparr>] else pre)"
        by simp
    qed
    have hit: "\<forall>b bs. dets = b # bs \<longrightarrow>
                   (\<exists>ya yb yc xa xb xc new_roi.
                       get_vertices (fst b) ps = Inr ((ya, yb, yc), (xa, xb, xc))
                     \<and> new_roi = ROI (bbox D) (int (height (buf s1))) (int (width (buf s1)))
                                   (fst (snd b)) (snd (snd b))
                                   (r0 roi + ya, r0 roi + yb, r0 roi + yc)
                                   (c0 roi + xa, c0 roi + xb, c0 roi + xc) ROI_LIFESPAN
                     \<and> health new_roi = ROI_LIFESPAN
                     \<and> mid = (if list_ex (intersects new_roi) pre then pre
                              else pre @ [new_roi]))"
    proof (intro allI impI)
      fix b bs assume "dets = b # bs"
      from roi_step_hit[OF sc[unfolded this] s] show
        "\<exists>ya yb yc xa xb xc new_roi.
                       get_vertices (fst b) ps = Inr ((ya, yb, yc), (xa, xb, xc))
                     \<and> new_roi = ROI (bbox D) (int (height (buf s1))) (int (width (buf s1)))
                                   (fst (snd b)) (snd (snd b))
                                   (r0 roi + ya, r0 roi + yb, r0 roi + yc)
                                   (c0 roi + xa, c0 roi + xb, c0 roi + xc) ROI_LIFESPAN
                     \<and> health new_roi = ROI_LIFESPAN
                     \<and> mid = (if list_ex (intersects new_roi) pre then pre
                              else pre @ [new_roi])" .
    qed
    from f h0 x sc y t miss hit show ?thesis
      by (intro exI[of _ "(rs0, s0)"] exI[of _ pre] exI[of _ s1] exI[of _ dets] exI[of _ ps]
                exI[of _ s2] exI[of _ mid] exI[of _ s3] conjI)
  qed
  from a b c d show ?thesis by (intro conjI allI impI)
qed

text \<open>
  A region created by the full scan of frame 0 misses on frame 1 (health 29) and is
  confirmed on frame 2: the list then holds its replacement, with full health.
\<close>

theorem health_invariant_witness:
  "\<exists>r st r' st' b bs ps s2.
      run_frames D0 P0 [0, 1] ([], start_state return_video 6 6) = Inr ([r], st)
    \<and> health r = 29
    \<and> process_frame D0 P0 (spot_frame 4 4) 2 [r] st = Inr ([r'], st')
    \<and> scan_roi D0 P0 (spot_frame 4 4) 2 r st = Inr ((b # bs, ps), s2)
    \<and> health r' = ROI_LIFESPAN"
proof -
  let ?s0 = "start_state return_video 6 6"
  have "case run_frames D0 P0 [0, 1] ([], ?s0) of
          Inl e \<Rightarrow> False
        | Inr res \<Rightarrow>
            map health (fst res) = [29]
            \<and> (case process_frame D0 P0 (spot_frame 4 4) 2 (fst res) (snd res) of
                 Inl e \<Rightarrow> False
               | Inr res' \<Rightarrow> map health (fst res') = [30])"
    by code_simp
  then obtain rs st rs' st' where
    h1: "run_frames D0 P0 [0, 1] ([], ?s0) = Inr (rs, st)"
    and h2: "process_frame D0 P0 (spot_frame 4 4) 2 rs st = Inr (rs', st')"
    and hl: "map health rs = [29]" "map health rs' = [30]"
    by (auto split: sum.splits)
  from hl obtain r r' where r: "rs = [r]" "health r = 29" "rs' = [r']" "health r' = 30"
    by (cases rs; cases rs') auto
  note inv = health_invariant[OF h1 h2]
  from inv[THEN conjunct2, THEN conjunct2, THEN conjunct2, rule_format, of "[]" r "[]"] r(1,3)
  obtain dets ps s2 where
    sc: "scan_roi D0 P0 (spot_frame 4 4) 2 r st = Inr ((dets, ps), s2)"
    and ms: "dets = [] \<longrightarrow> [r'] = (if health r \<noteq> 0 then [r\<lparr>health := health r - 1\<rparr>] else [])"
    by auto
  from ms r(2,4) have "dets \<noteq> []" by auto
  then obtain b bs where d: "dets = b # bs" by (cases dets) auto
  from r(4) have "health r' = ROI_LIFESPAN" by (simp add: ROI_LIFESPAN_def)
  with h1 h2 sc r d show ?thesis by blast
qed

section \<open>The short-circuit modes\<close>

lemma start_pipe_sel [simp]:
  "binarize (start_pipe backend only) = binarize backend"
  "edge (start_pipe backend only) = edge backend"
  "detect (start_pipe backend only) = detect backend"
  "pbinary (start_pipe backend only) = (snd only \<or> fst only)"
  "pedges (start_pipe backend only) = snd only"
  by (simp_all add: start_pipe_def Pipeline_def split: prod.splits)

lemma scan_full_short:
  assumes "scan_full D pipe frame i st = Inr (rs, st')"
    and "pbinary pipe \<or> pedges pipe"
  shows "rs = []"
    and "trace st' = trace st @ [Full_scan i, Binarize frame]
           @ (if pedges pipe then [Edge (binarize pipe frame)] else [])"
    and "binary (buf st') = (binary (buf st))[i := binarize pipe frame]"
    and "edges (buf st') = (if pedges pipe then (edges (buf st))[i := edge pipe (binarize pipe frame)]
                           else edges (buf st))"
    and "original (buf st') = original (buf st)"
  using assms
  by (auto simp: scan_full_def Let_def set_frame_def split: sum.splits if_splits)

text \<open>
  Claim C8. \<open>only = (only_binary, only_edges)\<close> is what \<open>process\<close> receives; it builds the
  pipeline from it once, before the loop over the frames. In binary-only mode a full scan
  calls \<open>binarize\<close>, stores the segmentation as frame \<open>i\<close> of \<open>binary\<close>, calls neither \<open>edge\<close>
  nor \<open>detect\<close>, leaves \<open>edges\<close> as it was and returns no region. In edges-only mode it calls
  \<open>binarize\<close> and \<open>edge\<close>, stores both results, does not call \<open>detect\<close> and returns no
  region. The command line cannot select both modes: \<^verbatim>\<open>--binary\<close> with \<^verbatim>\<open>--edges\<close> ends the
  program in \<open>parse_args\<close>.
\<close>

theorem scan_full_modes:
  assumes "fst only \<or> snd only"
    and "scan_full D (start_pipe backend only) frame i st = Inr (rs, st')"
  shows "rs = []
       \<and> trace st' = trace st @ [Full_scan i, Binarize frame]
                      @ (if snd only then [Edge (binarize backend frame)] else [])
       \<and> binary (buf st') = (binary (buf st))[i := binarize backend frame]
       \<and> edges (buf st') = (if snd only
                             then (edges (buf st))[i := edge backend (binarize backend frame)]
                             else edges (buf st))
       \<and> parse_args (a\<lparr>arg_binary := True, arg_edges := True\<rparr>) = Inl 2"
proof -
  have m: "pbinary (start_pipe backend only) \<or> pedges (start_pipe backend only)"
    using assms(1) by auto
  from scan_full_short(1-4)[OF assms(2) m] show ?thesis
    by (simp add: parse_args_def)
qed

theorem scan_full_modes_witness:
  "(\<exists>st'. scan_full D0 (start_pipe P0 (True, False)) (spot_frame 3 3) 0
             (start_state [spot_frame 3 3] 6 6) = Inr ([], st')
          \<and> trace st' = [Full_scan 0, Binarize (spot_frame 3 3)]
          \<and> binary (buf st') = [binarize P0 (spot_frame 3 3)]
          \<and> edges (buf st') = edges (buf (start_state [spot_frame 3 3] 6 6)))
   \<and> (\<exists>st'. scan_full D0 (start_pipe P0 (False, True)) (spot_frame 3 3) 0
             (start_state [spot_frame 3 3] 6 6) = Inr ([], st')
          \<and> trace st' = [Full_scan 0, Binarize (spot_frame 3 3),
                          Edge (binarize P0 (spot_frame 3 3))]
          \<and> binary (buf st') = [binarize P0 (spot_frame 3 3)]
          \<and> edges (buf st') = [edge P0 (binarize P0 (spot_frame 3 3))])"
proof -
  let ?st = "start_state [spot_frame 3 3] 6 6"
  have b0: "binary (buf ?st) = [replicate 6 (replicate 6 0)]"
    and e0: "edges (buf ?st) = [replicate 6 (replicate 6 0)]" and t0: "trace ?st = []"
    by (simp_all add: start_state_def Buffer_def)
  have "\<not> isl (scan_full D0 (start_pipe P0 (True, False)) (spot_frame 3 3) 0 ?st)"
    by code_simp
  then obtain rs1 st1 where
    h1: "scan_full D0 (start_pipe P0 (True, False)) (spot_frame 3 3) 0 ?st = Inr (rs1, st1)"
    by (cases "scan_full D0 (start_pipe P0 (True, False)) (spot_frame 3 3) 0 ?st") auto
  have "\<not> isl (scan_full D0 (start_pipe P0 (False, True)) (spot_frame 3 3) 0 ?st)"
    by code_simp
  then obtain rs2 st2 where
    h2: "scan_full D0 (start_pipe P0 (False, True)) (spot_frame 3 3) 0 ?st = Inr (rs2, st2)"
    by (cases "scan_full D0 (start_pipe P0 (False, True)) (spot_frame 3 3) 0 ?st") auto
  from scan_full_modes[OF _ h1] h1 have
    "\<exists>st'. scan_full D0 (start_pipe P0 (True, False)) (spot_frame 3 3) 0 ?st = Inr ([], st')
          \<and> trace st' = [Full_scan 0, Binarize (spot_frame 3 3)]
          \<and> binary (buf st') = [binarize P0 (spot_frame 3 3)]
          \<and> edges (buf st') = edges (buf ?st)"
    by (simp add: b0 t0)
  moreover from scan_full_modes[OF _ h2] h2 have
    "\<exists>st'. scan_full D0 (start_pipe P0 (False, True)) (spot_frame 3 3) 0 ?st = Inr ([], st')
          \<and> trace st' = [Full_scan 0, Binarize (spot_frame 3 3),
                          Edge (binarize P0 (spot_frame 3 3))]
          \<and> binary (buf st') = [binarize P0 (spot_frame 3 3)]
          \<and> edges (buf st') = [edge P0 (binarize P0 (spot_frame 3 3))]"
    by (simp add: b0 e0 t0)
  ultimately show ?thesis by blast
qed

lemma process_frame_short:
  assumes "pbinary pipe \<or> pedges pipe"
    and "process_frame D pipe frame i [] st = Inr (new_rois, st')"
  shows "new_rois = []" and "filter is_tracking (trace st') = filter is_tracking (trace st)"
proof -
  from assms(2) obtain rs0 st0 st1 where
    f: "(if i mod 15 = 0 \<or> [] = ([] :: roi list) then scan_full D pipe frame i st
         else Inr ([], st)) = Inr (rs0, st0)"
    and l: "foldE (roi_step D pipe frame i) [] (rs0, st0) = Inr (new_rois, st1)"
    and t: "trace st' = trace st1"
    by (rule process_frame_InrE)
  from f have sf: "scan_full D pipe frame i st = Inr (rs0, st0)" by simp
  from l have e: "new_rois = rs0" "st1 = st0" by simp_all
  from scan_full_short(1)[OF sf assms(1)] e show "new_rois = []" by simp
  from scan_full_short(2)[OF sf assms(1)] e t
  show "filter is_tracking (trace st') = filter is_tracking (trace st)" by simp
qed

text \<open>
  Claim C10. In binary-only or edges-only mode, a run that starts with no region has no
  region at the start of any frame (\<open>ixs\<close> is any sequence of frames processed so far), and
  neither a restricted scan nor a call of \<open>detect\<close> ever happens: no region is created,
  punished or scanned.
\<close>

theorem short_circuit_no_regions:
  assumes "fst only \<or> snd only"
    and "run_frames D (start_pipe backend only) ixs ([], st) = Inr (rois, st')"
  shows "rois = [] \<and> filter is_tracking (trace st') = filter is_tracking (trace st)"
  using assms(2)
proof (induction ixs arbitrary: st)
  case Nil
  then show ?case by (simp add: run_frames_def)
next
  case (Cons i ixs)
  from Cons.prems obtain rois1 st1 where
    s: "frame_step D (start_pipe backend only) i ([], st) = Inr (rois1, st1)"
    and l: "run_frames D (start_pipe backend only) ixs (rois1, st1) = Inr (rois, st')"
    by (auto simp: run_frames_def split: sum.splits)
  from s have p: "process_frame D (start_pipe backend only) (original (buf st) ! i) i [] st
                    = Inr (rois1, st1)"
    by (simp add: frame_step_def split: if_splits)
  have m: "pbinary (start_pipe backend only) \<or> pedges (start_pipe backend only)"
    using assms(1) by auto
  from process_frame_short[OF m p] have
    e: "rois1 = []" "filter is_tracking (trace st1) = filter is_tracking (trace st)"
    by simp_all
  from Cons.IH[OF l[unfolded e(1)]] e(2) show ?case by simp
qed

theorem short_circuit_no_regions_witness:
  "\<exists>st'. process_run D0 P0 [spot_frame 3 3, black_frame] 6 6 (True, False) = Inr ([], st')
        \<and> filter is_tracking (trace st') = []"
proof -
  have "\<not> isl (process_run D0 P0 [spot_frame 3 3, black_frame] 6 6 (True, False))"
    by code_simp
  then obtain rois st' where
    h: "process_run D0 P0 [spot_frame 3 3, black_frame] 6 6 (True, False) = Inr (rois, st')"
    by (cases "process_run D0 P0 [spot_frame 3 3, black_frame] 6 6 (True, False)") auto
  from short_circuit_no_regions[OF _ h[unfolded process_run_def]] h show ?thesis
    by (simp add: start_state_def)
qed

section \<open>Arrays: what an assignment leaves unchanged\<close>

lemma clip_bound_le: "clip_bound n k \<le> n"
  by (auto simp: clip_bound_def)

lemma slice_bounds_le:
  assumes "slice_bounds n a b = (s, e)"
  shows "s \<le> e" and "e \<le> n"
  using assms clip_bound_le[of n a] clip_bound_le[of n b]
  by (auto simp: slice_bounds_def)

lemma set_px_other:
  assumes "(y, x) \<noteq> (y0, x0)"
  shows "set_px im y0 x0 v ! y ! x = im ! y ! x"
proof (cases "y = y0")
  case True
  with assms have "x \<noteq> x0" by simp
  with True show ?thesis
    by (cases "y0 < length im") (simp_all add: set_px_def list_update_beyond)
next
  case False
  then show ?thesis by (simp add: set_px_def)
qed

lemma hits_Cons:
  "hits H W (q # pts) p =
     ((norm_index H (fst q) = fst p \<and> norm_index W (snd q) = snd p) \<or> hits H W pts p)"
  by (simp add: hits_def)

lemma hits_append: "hits H W (ps @ qs) p = (hits H W ps p \<or> hits H W qs p)"
  by (auto simp: hits_def list_ex_iff)

lemma fold_set_px_other:
  "\<not> hits H W pts (y, x)
     \<Longrightarrow> fold (\<lambda>p im. set_px im (norm_index H (fst p)) (norm_index W (snd p)) v) pts img ! y ! x
          = img ! y ! x"
proof (induction pts arbitrary: img)
  case Nil
  then show ?case by simp
next
  case (Cons q pts)
  from Cons.prems have n: "(y, x) \<noteq> (norm_index H (fst q), norm_index W (snd q))"
    and r: "\<not> hits H W pts (y, x)"
    by (auto simp: hits_Cons)
  from Cons.IH[OF r] set_px_other[OF n] show ?case by simp
qed

lemma stamp_other:
  assumes "stamp img H W pts v = Inr img'" and "\<not> hits H W pts (y, x)"
  shows "img' ! y ! x = img ! y ! x"
  using assms fold_set_px_other[of H W pts y x v img]
  by (auto simp: stamp_def split: if_splits)

lemma draw_roi_other:
  assumes "draw_roi D H W roi val sval img = Inr img'"
    and "\<not> hits H W (marker D H W roi) (y, x)"
  shows "img' ! y ! x = img ! y ! x"
proof -
  let ?y0 = "r0 roi - 1" and ?x0 = "c0 roi - 1"
  let ?poly = "polygon_perimeter D [?y0, ?y0, r1 roi, r1 roi, ?y0]
                 [?x0, c1 roi, c1 roi, ?x0, ?x0] (H, W)"
  from assms(1) obtain img1 where
    s1: "stamp img H W ?poly val = Inr img1"
    by (cases "stamp img H W ?poly val") (simp_all add: draw_roi_def Let_def)
  from assms(1) s1 obtain img2 where
    s2: "stamp img1 H W (circle D ?y0 ?x0 5 (H, W)) sval = Inr img2"
    by (cases "stamp img1 H W (circle D ?y0 ?x0 5 (H, W)) sval")
       (simp_all add: draw_roi_def Let_def)
  from assms(1) s1 s2 have
    s3: "stamp img2 H W (circle_perimeter D ?y0 ?x0 5) val = Inr img'"
    by (simp add: draw_roi_def Let_def)
  from assms(2) have
    h: "\<not> hits H W ?poly (y, x)" "\<not> hits H W (circle D ?y0 ?x0 5 (H, W)) (y, x)"
       "\<not> hits H W (circle_perimeter D ?y0 ?x0 5) (y, x)"
    by (simp_all add: marker_def Let_def hits_append)
  from stamp_other[OF s3 h(3)] stamp_other[OF s2 h(2)] stamp_other[OF s1 h(1)]
  show ?thesis by simp
qed

lemma has_shape_nth:
  assumes "has_shape img H W" and "y < H"
  shows "length img = H" and "length (img ! y) = W"
  using assms by (auto simp: has_shape_def list_all_length)

lemma assign_region_nth:
  assumes a: "assign_region img H W a b c d M = Inr img'"
    and sh: "has_shape img H W"
    and rb: "slice_bounds H a b = (ra, rb)" and cb: "slice_bounds W c d = (ca, cb)"
    and y: "y < H" and x: "x < W"
  shows "img' ! y ! x =
           (if ra \<le> y \<and> y < rb \<and> ca \<le> x \<and> x < cb then M ! (y - ra) ! (x - ca)
            else img ! y ! x)"
proof -
  from a rb cb have m: "has_shape M (rb - ra) (cb - ca)"
    and i: "img' = take ra img
              @ map2 (\<lambda>row m. take ca row @ m @ drop cb row) (take (rb - ra) (drop ra img)) M
              @ drop rb img"
    by (auto simp: assign_region_def split: if_splits)
  from slice_bounds_le[OF rb] slice_bounds_le[OF cb] have
    le: "ra \<le> rb" "rb \<le> H" "ca \<le> cb" "cb \<le> W" by simp_all
  from sh y have l: "length img = H" "length (img ! y) = W"
    by (rule has_shape_nth)+
  from m have lm: "length M = rb - ra" by (simp add: has_shape_def)
  consider "y < ra" | "ra \<le> y" "y < rb" | "rb \<le> y" by linarith
  then show ?thesis
  proof cases
    case 1
    with i l le show ?thesis by (simp add: nth_append)
  next
    case 2
    from m 2 have lr: "length (M ! (y - ra)) = cb - ca"
      by (auto simp: has_shape_def list_all_length)
    let ?xs = "take (rb - ra) (drop ra img)"
    let ?f = "\<lambda>row m. take ca row @ m @ drop cb row"
    from l le have lx: "length ?xs = rb - ra" by simp
    from 2 have k: "y - ra < rb - ra" by linarith
    from l le 2 have "length (take ra img) = ra" by simp
    with i 2 k lx lm have "img' ! y = map2 ?f ?xs M ! (y - ra)"
      by (simp add: nth_append)
    also from k lx lm have "\<dots> = ?f (?xs ! (y - ra)) (M ! (y - ra))"
      by simp
    also from k l le 2 have "?xs ! (y - ra) = img ! y"
      by simp
    finally have
      r: "img' ! y = take ca (img ! y) @ M ! (y - ra) @ drop cb (img ! y)" .
    consider "x < ca" | "ca \<le> x" "x < cb" | "cb \<le> x" by linarith
    then show ?thesis
    proof cases
      case 1
      with r l le 2 show ?thesis by (simp add: nth_append)
    next
      case 2
      then have "x - ca < cb - ca" by linarith
      with 2 r l le lr \<open>ra \<le> y\<close> \<open>y < rb\<close> show ?thesis by (simp add: nth_append)
    next
      case 3
      then have "\<not> x - ca < cb - ca" "\<not> x < ca" "x - ca - (cb - ca) = x - cb"
        using le by linarith+
      with 3 r l le lr x \<open>ra \<le> y\<close> \<open>y < rb\<close> show ?thesis by (simp add: nth_append)
    qed
  next
    case 3
    with le have n: "\<not> y < ra" "\<not> y - ra < rb - ra" "y - ra - (rb - ra) = y - rb"
      by linarith+
    from l le have "length (take ra img) = ra"
      "length (map2 (\<lambda>row m. take ca row @ m @ drop cb row) (take (rb - ra) (drop ra img)) M)
         = rb - ra"
      using lm by simp_all
    with i n 3 l le y show ?thesis by (simp add: nth_append)
  qed
qed

lemma assign_region_outside:
  assumes "assign_region img H W (r0 roi) (r1 roi) (c0 roi) (c1 roi) M = Inr img'"
    and "has_shape img H W" and "y < H" and "x < W" and "\<not> in_region H W roi (y, x)"
  shows "img' ! y ! x = img ! y ! x"
proof -
  obtain ra rb ca cb where
    b: "slice_bounds H (r0 roi) (r1 roi) = (ra, rb)" "slice_bounds W (c0 roi) (c1 roi) = (ca, cb)"
    by (metis surj_pair)
  from assms(5) b have "\<not> (ra \<le> y \<and> y < rb \<and> ca \<le> x \<and> x < cb)"
    by (simp add: in_region_def)
  with assign_region_nth[OF assms(1,2) b assms(3,4)] show ?thesis by simp
qed

section \<open>What the stages of a restricted scan receive\<close>

text \<open>
  Claim C7, as the code has it. In a restricted scan \<open>binarize\<close> receives the sub-region of
  the frame. Its result is written into frame \<open>i\<close> of \<open>binary\<close> inside the sub-region only
  (\<open>b1\<close>); then the marker is drawn on that frame, which changes no pixel but those the
  marker names. \<open>edge\<close> receives the sub-region of \<open>binary\<close> as it is after the marker has
  been drawn, its result is written into frame \<open>i\<close> of \<open>edges\<close> inside the sub-region only
  (\<open>e1\<close>), the marker is drawn there too, and \<open>detect\<close> receives the sub-regions of \<open>edges\<close>
  and \<open>binary\<close> as they are after that. So a marker pixel inside the sub-region is part of
  what \<open>edge\<close> and \<open>detect\<close> receive. The original frames and the other frames of
  \<open>binary\<close> and \<open>edges\<close> are not changed.
\<close>

theorem scan_roi_effects:
  assumes "scan_roi D pipe frame i roi st = Inr (res, st')"
    and "has_shape (binary (buf st) ! i) (height (buf st)) (width (buf st))"
    and "has_shape (edges (buf st) ! i) (height (buf st)) (width (buf st))"
  shows "\<exists>b1 e1.
      trace st' = trace st @
        [Roi_scan i roi,
         Binarize (subregion frame (height (buf st)) (width (buf st))
                     (r0 roi) (r1 roi) (c0 roi) (c1 roi)),
         Edge (subregion (binary (buf st') ! i) (height (buf st)) (width (buf st))
                 (r0 roi) (r1 roi) (c0 roi) (c1 roi)),
         Detect (subregion (edges (buf st') ! i) (height (buf st)) (width (buf st))
                   (r0 roi) (r1 roi) (c0 roi) (c1 roi))
                (subregion (binary (buf st') ! i) (height (buf st)) (width (buf st))
                   (r0 roi) (r1 roi) (c0 roi) (c1 roi))]
    \<and> assign_region (binary (buf st) ! i) (height (buf st)) (width (buf st))
          (r0 roi) (r1 roi) (c0 roi) (c1 roi)
          (binarize pipe (subregion frame (height (buf st)) (width (buf st))
                            (r0 roi) (r1 roi) (c0 roi) (c1 roi))) = Inr b1
    \<and> draw_roi D (height (buf st)) (width (buf st)) roi 255 (scale D 255 (health roi)) b1
          = Inr (binary (buf st') ! i)
    \<and> assign_region (edges (buf st) ! i) (height (buf st)) (width (buf st))
          (r0 roi) (r1 roi) (c0 roi) (c1 roi)
          (edge pipe (subregion (binary (buf st') ! i) (height (buf st)) (width (buf st))
                        (r0 roi) (r1 roi) (c0 roi) (c1 roi))) = Inr e1
    \<and> draw_roi D (height (buf st)) (width (buf st)) roi 255 (scale D 255 (health roi)) e1
          = Inr (edges (buf st') ! i)
    \<and> original (buf st') = original (buf st)
    \<and> (\<forall>j. j \<noteq> i \<longrightarrow> binary (buf st') ! j = binary (buf st) ! j
                        \<and> edges (buf st') ! j = edges (buf st) ! j)
    \<and> (\<forall>y<height (buf st). \<forall>x<width (buf st).
          \<not> in_region (height (buf st)) (width (buf st)) roi (y, x) \<longrightarrow>
            b1 ! y ! x = binary (buf st) ! i ! y ! x \<and> e1 ! y ! x = edges (buf st) ! i ! y ! x)
    \<and> (\<forall>y x. \<not> hits (height (buf st)) (width (buf st))
                   (marker D (height (buf st)) (width (buf st)) roi) (y, x) \<longrightarrow>
            binary (buf st') ! i ! y ! x = b1 ! y ! x \<and> edges (buf st') ! i ! y ! x = e1 ! y ! x)"
proof -
  let ?H = "height (buf st)" and ?W = "width (buf st)"
  from assms(1) obtain b1 b2 e1 e2 where
    lb: "i < length (binary (buf st))"
    and b1: "assign_region (binary (buf st) ! i) ?H ?W (r0 roi) (r1 roi) (c0 roi) (c1 roi)
              (binarize pipe (subregion frame ?H ?W (r0 roi) (r1 roi) (c0 roi) (c1 roi)))
              = Inr b1"
    and b2: "draw_roi D ?H ?W roi 255 (scale D 255 (health roi)) b1 = Inr b2"
    and le: "i < length (edges (buf st))"
    and e1: "assign_region (edges (buf st) ! i) ?H ?W (r0 roi) (r1 roi) (c0 roi) (c1 roi)
              (edge pipe (subregion b2 ?H ?W (r0 roi) (r1 roi) (c0 roi) (c1 roi))) = Inr e1"
    and e2: "draw_roi D ?H ?W roi 255 (scale D 255 (health roi)) e1 = Inr e2"
    and bf: "buf st' = (buf st)\<lparr>binary := (binary (buf st))[i := b2],
                                edges := (edges (buf st))[i := e2]\<rparr>"
    and tr: "trace st' = trace st @
       [Roi_scan i roi,
        Binarize (subregion frame ?H ?W (r0 roi) (r1 roi) (c0 roi) (c1 roi)),
        Edge (subregion b2 ?H ?W (r0 roi) (r1 roi) (c0 roi) (c1 roi)),
        Detect (subregion e2 ?H ?W (r0 roi) (r1 roi) (c0 roi) (c1 roi))
               (subregion b2 ?H ?W (r0 roi) (r1 roi) (c0 roi) (c1 roi))]"
    by (rule scan_roi_InrE)
  from bf lb le have nb: "binary (buf st') ! i = b2" and ne: "edges (buf st') ! i = e2"
    and og: "original (buf st') = original (buf st)"
    and ot: "\<forall>j. j \<noteq> i \<longrightarrow> binary (buf st') ! j = binary (buf st) ! j
                        \<and> edges (buf st') ! j = edges (buf st) ! j"
    by simp_all
  have out: "\<forall>y<?H. \<forall>x<?W. \<not> in_region ?H ?W roi (y, x) \<longrightarrow>
               b1 ! y ! x = binary (buf st) ! i ! y ! x \<and> e1 ! y ! x = edges (buf st) ! i ! y ! x"
    using assign_region_outside[OF b1 assms(2)] assign_region_outside[OF e1 assms(3)]
    by blast
  have mk: "\<forall>y x. \<not> hits ?H ?W (marker D ?H ?W roi) (y, x) \<longrightarrow>
              b2 ! y ! x = b1 ! y ! x \<and> e2 ! y ! x = e1 ! y ! x"
    using draw_roi_other[OF b2] draw_roi_other[OF e2] by blast
  show ?thesis
    apply (rule exI[of _ b1], rule exI[of _ e1])
    unfolding nb ne
    using tr b1 b2 e1 e2 og ot[unfolded nb ne] out mk
    apply (intro conjI)
    apply assumption+
    done
qed


theorem scan_roi_effects_witness:
  "\<exists>res st'.
      scan_roi D0 P0 wide_frame 0 roi8 (start_state [wide_frame] 12 12) = Inr (res, st')
    \<and> has_shape (binary (buf (start_state [wide_frame] 12 12)) ! 0) 12 12
    \<and> has_shape (edges (buf (start_state [wide_frame] 12 12)) ! 0) 12 12
    \<and> original (buf st') = [wide_frame]
    \<and> trace st' ! 1 = Binarize (subregion wide_frame 12 12 (r0 roi8) (r1 roi8) (c0 roi8) (c1 roi8))
    \<and> trace st' ! 2 = Edge (subregion (binary (buf st') ! 0) 12 12
                              (r0 roi8) (r1 roi8) (c0 roi8) (c1 roi8))"
proof -
  let ?st = "start_state [wide_frame] 12 12"
  have "\<not> isl (scan_roi D0 P0 wide_frame 0 roi8 ?st)"
    by code_simp
  then obtain res st' where h: "scan_roi D0 P0 wide_frame 0 roi8 ?st = Inr (res, st')"
    by (cases "scan_roi D0 P0 wide_frame 0 roi8 ?st") auto
  have hw: "height (buf ?st) = 12" "width (buf ?st) = 12" "trace ?st = []"
    "original (buf ?st) = [wide_frame]"
    by (simp_all add: start_state_def Buffer_def)
  have s1: "has_shape (binary (buf ?st) ! 0) 12 12"
    and s2: "has_shape (edges (buf ?st) ! 0) 12 12"
    by (simp_all add: start_state_def Buffer_def has_shape_def list_all_length)
  from scan_roi_effects[OF h, unfolded hw, OF s1 s2] have
    "original (buf st') = [wide_frame]"
    "trace st' ! 1 = Binarize (subregion wide_frame 12 12 (r0 roi8) (r1 roi8) (c0 roi8) (c1 roi8))"
    "trace st' ! 2 = Edge (subregion (binary (buf st') ! 0) 12 12
                             (r0 roi8) (r1 roi8) (c0 roi8) (c1 roi8))"
    by (auto simp: numeral_2_eq_2)
  with h s1 s2 show ?thesis by blast
qed

text \<open>
  The claim C7 as stated says that every stage receives data unaffected by the marker.
  Here the region is the box \<open>[6:10, 6:10]\<close> of a 12 by 12 frame; the disc of radius 5
  around (5, 5) covers most of it. \<open>binarize\<close> returns a mask with the one segmented pixel,
  \<open>edge\<close> receives a mask in which the marker value 255 has replaced it, and the scan
  reports no detection where the unmarked data holds one.
\<close>

theorem scan_roi_marker_counterexample:
  "\<exists>res st'.
      scan_roi D0 P0 wide_frame 0 roi8 (start_state [wide_frame] 12 12) = Inr (res, st')
    \<and> (r0 roi8, r1 roi8, c0 roi8, c1 roi8) = (6, 10, 6, 10)
    \<and> binarize P0 (subregion wide_frame 12 12 6 10 6 10)
        = [[0, 0, 0, 0], [0, 0, 0, 0], [0, 0, 200, 0], [0, 0, 0, 0]]
    \<and> trace st' ! 2
        = Edge [[255, 255, 255, 255], [255, 255, 255, 255], [255, 255, 255, 255],
                [255, 255, 255, 0]]
    \<and> fst res = []
    \<and> fst (detect P0 (edge P0 (binarize P0 (subregion wide_frame 12 12 6 10 6 10)))
                      (binarize P0 (subregion wide_frame 12 12 6 10 6 10)))
        = [((0, 1, 2), (2, 2))]"
proof -
  let ?st = "start_state [wide_frame] 12 12"
  have "case scan_roi D0 P0 wide_frame 0 roi8 ?st of
          Inl e \<Rightarrow> False
        | Inr r \<Rightarrow>
            fst (fst r) = []
            \<and> trace (snd r) ! 2
                = Edge [[255, 255, 255, 255], [255, 255, 255, 255], [255, 255, 255, 255],
                        [255, 255, 255, 0]]"
    by code_simp
  then obtain res st' where
    h: "scan_roi D0 P0 wide_frame 0 roi8 ?st = Inr (res, st')"
    and e: "fst res = []"
           "trace st' ! 2
              = Edge [[255, 255, 255, 255], [255, 255, 255, 255], [255, 255, 255, 255],
                      [255, 255, 255, 0]]"
    by (auto split: sum.splits)
  have b: "(r0 roi8, r1 roi8, c0 roi8, c1 roi8) = (6, 10, 6, 10)"
    by code_simp
  have s: "binarize P0 (subregion wide_frame 12 12 6 10 6 10)
             = [[0, 0, 0, 0], [0, 0, 0, 0], [0, 0, 200, 0], [0, 0, 0, 0]]"
    by code_simp
  have d: "fst (detect P0 (edge P0 (binarize P0 (subregion wide_frame 12 12 6 10 6 10)))
                         (binarize P0 (subregion wide_frame 12 12 6 10 6 10)))
             = [((0, 1, 2), (2, 2))]"
    by code_simp
  from h e b s d show ?thesis by blast
qed

section \<open>The exit status\<close>

text \<open>
  What the script guarantees about its exit status: 2 for \<^verbatim>\<open>--binary\<close> with
  \<^verbatim>\<open>--edges\<close> and for \<^verbatim>\<open>--save-all\<close> with either, before anything is read; with a
  configuration file given, 2 when the file has no section \<^verbatim>\<open>options\<close> or the video has not
  three channels, and 0 when the frames are processed without an exception; and without a
  configuration file, the uncaught \<^verbatim>\<open>TypeError\<close> of \<^verbatim>\<open>len(None)\<close>, whatever the video is.
\<close>

lemma script_exit_codes:
  "(arg_binary a \<and> arg_edges a \<longrightarrow> script D wd a = Exit 2)
 \<and> (save_all a \<and> (arg_binary a \<or> arg_edges a) \<longrightarrow> script D wd a = Exit 2)
 \<and> (parse_args a = Inr a \<and> config a = Some (c # cs) \<and> \<not> has_options wd c
       \<longrightarrow> script D wd a = Exit 2)
 \<and> (parse_args a = Inr a \<and> config a = Some (c # cs) \<and> has_options wd c
       \<and> depth (video_at wd (f_in a)) \<noteq> 3 \<longrightarrow> script D wd a = Exit 2)
 \<and> (parse_args a = Inr a \<and> config a = Some (c # cs) \<and> has_options wd c
       \<and> depth (video_at wd (f_in a)) = 3
       \<and> process D (backend_of wd (Some c)) (frames (video_at wd (f_in a)))
            (vheight (video_at wd (f_in a))) (vwidth (video_at wd (f_in a)))
            (arg_binary a, arg_edges a) = Inr b
       \<longrightarrow> script D wd a = Exit 0)
 \<and> (parse_args a = Inr a \<and> config a = None \<longrightarrow> script D wd a = Uncaught TypeError)"
  by (auto simp: script_def parse_args_def main_def load_def split: if_splits)

lemma script_exit_codes_example:
  "script D0 world0 (args0\<lparr>arg_binary := True, arg_edges := True\<rparr>) = Exit 2
 \<and> script D0 world0 (args0\<lparr>save_all := True, arg_edges := True\<rparr>) = Exit 2
 \<and> script D0 world4 (args0\<lparr>config := Some [''cfg.ini'']\<rparr>) = Exit 2
 \<and> script D0 world0 args0 = Uncaught TypeError"
proof -
  have 1: "arg_binary (args0\<lparr>arg_binary := True, arg_edges := True\<rparr>)
           \<and> arg_edges (args0\<lparr>arg_binary := True, arg_edges := True\<rparr>)"
    by simp
  have 2: "save_all (args0\<lparr>save_all := True, arg_edges := True\<rparr>)
           \<and> (arg_binary (args0\<lparr>save_all := True, arg_edges := True\<rparr>)
              \<or> arg_edges (args0\<lparr>save_all := True, arg_edges := True\<rparr>))"
    by simp
  have 4: "parse_args (args0\<lparr>config := Some [''cfg.ini'']\<rparr>) = Inr (args0\<lparr>config := Some [''cfg.ini'']\<rparr>)
           \<and> config (args0\<lparr>config := Some [''cfg.ini'']\<rparr>) = Some (''cfg.ini'' # [])
           \<and> has_options world4 ''cfg.ini''
           \<and> depth (video_at world4 (f_in (args0\<lparr>config := Some [''cfg.ini'']\<rparr>))) \<noteq> 3"
    by (simp add: parse_args_def args0_def world4_def world0_def)
  have 6: "parse_args args0 = Inr args0 \<and> config args0 = None"
    by (simp add: parse_args_def args0_def)
  note w1 = script_exit_codes[where a = "args0\<lparr>arg_binary := True, arg_edges := True\<rparr>"
      and D = D0 and wd = world0, THEN conjunct1, THEN mp, OF 1]
  note w2 = script_exit_codes[where a = "args0\<lparr>save_all := True, arg_edges := True\<rparr>"
      and D = D0 and wd = world0, THEN conjunct2, THEN conjunct1, THEN mp, OF 2]
  note w4 = script_exit_codes[where a = "args0\<lparr>config := Some [''cfg.ini'']\<rparr>"
      and c = "''cfg.ini''" and cs = "[]" and wd = world4 and D = D0,
      THEN conjunct2, THEN conjunct2, THEN conjunct2, THEN conjunct1, THEN mp, OF 4]
  note w6 = script_exit_codes[where a = args0 and wd = world0 and D = D0,
      THEN conjunct2, THEN conjunct2, THEN conjunct2, THEN conjunct2, THEN conjunct2,
      THEN mp, OF 6]
  from w1 w2 w4 w6 show ?thesis by simp
qed

text \<open>
  Claim C9 says that a valid run exits with 0 and that a video without three channels is
  exit 2. \<open>main\<close> evaluates \<^verbatim>\<open>len(args.config)\<close> before it loads anything, so a run without
  \<^verbatim>\<open>--config\<close>, which the same function treats as a valid run (\<^verbatim>\<open>cfg if args.config else
  None\<close>), ends with an uncaught \<^verbatim>\<open>TypeError\<close> and status 1: for a colour video, where the
  same call with a configuration file exits with 0, and for a video of four channels.
\<close>

theorem script_without_config:
  "parse_args args0 = Inr args0
 \<and> depth (video_at world0 (f_in args0)) = 3
 \<and> script D0 world0 (args0\<lparr>config := Some [''cfg.ini'']\<rparr>) = Exit 0
 \<and> script D0 world0 args0 = Uncaught TypeError
 \<and> exit_code (script D0 world0 args0) = 1
 \<and> depth (video_at world4 (f_in args0)) = 4
 \<and> script D0 world4 args0 = Uncaught TypeError
 \<and> exit_code (script D0 world4 args0) = 1"
proof -
  have a: "parse_args args0 = Inr args0"
    by (simp add: parse_args_def args0_def)
  have b: "depth (video_at world0 (f_in args0)) = 3" "depth (video_at world4 (f_in args0)) = 4"
    by (simp_all add: world0_def world4_def)
  have c: "script D0 world0 (args0\<lparr>config := Some [''cfg.ini'']\<rparr>) = Exit 0"
    by code_simp
  have n: "config args0 = None"
    by (simp add: args0_def)
  have d: "script D0 world0 args0 = Uncaught TypeError" "script D0 world4 args0 = Uncaught TypeError"
    by (simp_all add: script_def a main_def n)
  from a b c d show ?thesis by simp
qed

end
